theory Spec2Isabelle
  imports Main "HOL-Library.Multiset" "HOL-Library.List_Lexorder" "HOL-Library.Char_ord"
begin

section \<open>The structural diff of remote/mock.go\<close>

subsection \<open>Values, types and chunks\<close>

text \<open>
  \<^verbatim>\<open>Diff\<close> works by reflection on two \<^verbatim>\<open>interface{}\<close> values. A Go type is modelled by
  its kind and its parts, which is all that \<^verbatim>\<open>diffValue\<close> reads of a \<^verbatim>\<open>reflect.Type\<close>
  (\<^verbatim>\<open>Kind\<close>, \<^verbatim>\<open>Elem\<close>, \<^verbatim>\<open>NumField\<close>, \<^verbatim>\<open>Field(i)\<close>). \<open>Named n t\<close> is a declared type
  \<^verbatim>\<open>type n t\<close>: it has the kind and the parts of \<open>t\<close> and is a different type.
  The kinds of the \<^verbatim>\<open>default\<close> branch of \<^verbatim>\<open>diffValue\<close> ("all ground types") are
  represented by booleans, integers, strings, floating-point and complex numbers.
  Of a floating-point value only \<^verbatim>\<open>==\<close> is used: it is NaN, or a number, given by an
  integer that names its value, so that two numbers are \<^verbatim>\<open>==\<close> when the integers are the
  same, and NaN is \<^verbatim>\<open>==\<close> to nothing, itself included.

  Types and values are finite trees. A value with a cycle through pointers has no
  representation here; on such a value the source, which keeps no record of the
  pointers it has followed, does not return. A value of a recursive type declaration
  that has no cycle is compared along a finite unfolding of its type.
\<close>

datatype float64 = NaN | Num int

datatype ground =
    GBool bool
  | GInt int
  | GString string
  | GFloat float64
  | GComplex float64 float64

datatype gkind = KBool | KInt | KString | KFloat | KComplex

datatype gotype =
    Ground gkind
  | Array nat gotype
  | Slice gotype
  | Interface
  | Ptr gotype
  | Struct "sfield list"
  | Map gotype gotype
  | Func
  | Named string gotype
and sfield = StructField (fname: string) (exported: bool) (ftype: gotype)

text \<open>
  A \<^verbatim>\<open>reflect.Value\<close>. \<open>Seq\<close> holds the elements of an array or a slice, \<open>Rec\<close> the
  fields of a struct in declaration order, \<open>Mapping\<close> the entries of a map in the order
  in which \<^verbatim>\<open>MapKeys\<close> returns the keys (Go leaves that order open: every permutation of
  the entries is the same map). Map keys are ground values. \<open>Pointer None\<close> is a nil
  pointer, \<open>Opaque\<close> a value of interface or func type, and \<open>Zero\<close> the zero
  \<^verbatim>\<open>reflect.Value\<close>, which \<^verbatim>\<open>reflect.Indirect\<close> returns for a nil pointer and
  \<^verbatim>\<open>MapIndex\<close> for an absent key.
\<close>

datatype val =
    G ground
  | Seq "val list"
  | Pointer "val option"
  | Rec "val list"
  | Mapping "(ground \<times> val) list"
  | Opaque
  | Zero

text \<open>An \<^verbatim>\<open>interface{}\<close> argument: its dynamic type and value; \<open>None\<close> is nil.\<close>

type_synonym iface = "(gotype \<times> val) option"

definition TypeOf :: "iface \<Rightarrow> gotype option" where
  "TypeOf v = map_option fst v"

record chunk =
  Deleted :: "val list"
  Added :: "val list"
  Path :: string

text \<open>
  The ways a comparison fails: the four errors the source returns, and a panic raised
  inside package reflect (a method called on the zero Value or on a nil type).
\<close>

datatype derr =
    ErrNotDiffable
  | ErrInterfaceDiff
  | ErrFuncDiff
  | ErrBothMaps
  | ReflectPanic

subsection \<open>Equality of ground values\<close>

text \<open>
  \<^verbatim>\<open>a.Interface() != b.Interface()\<close> on two values of one ground type is Go's \<^verbatim>\<open>==\<close>
  on that type, which is also how a map finds a key.
\<close>

fun float_eq :: "float64 \<Rightarrow> float64 \<Rightarrow> bool" where
  "float_eq (Num x) (Num y) = (x = y)"
| "float_eq x y = False"

fun ground_eq :: "ground \<Rightarrow> ground \<Rightarrow> bool" where
  "ground_eq (GFloat x) (GFloat y) = float_eq x y"
| "ground_eq (GComplex x1 x2) (GComplex y1 y2) = (float_eq x1 y1 \<and> float_eq x2 y2)"
| "ground_eq x y = (x = y)"

subsection \<open>Formatting of path components\<close>

text \<open>
  \<^verbatim>\<open>%d\<close> of an index, as package fmt prints it. What \<^verbatim>\<open>%v\<close> prints for a map key
  depends on the key's type: the result of its \<^verbatim>\<open>Error\<close> or \<^verbatim>\<open>String\<close> method when the
  type declares one, the default format of the value otherwise. It is a parameter of
  the diff, \<open>fmtV\<close>, taking the key type and the key.
\<close>

fun fmt_d :: "nat \<Rightarrow> string" where
  "fmt_d n =
     (if n < 10 then [''0123456789'' ! n]
      else fmt_d (n div 10) @ [''0123456789'' ! (n mod 10)])"

definition index_path :: "string \<Rightarrow> nat \<Rightarrow> string" where
  "index_path path i = path @ ''['' @ fmt_d i @ '']''"

definition key_path :: "(gotype \<Rightarrow> ground \<Rightarrow> string) \<Rightarrow> gotype \<Rightarrow> string \<Rightarrow> ground \<Rightarrow> string" where
  "key_path fmtV keyTyp path k = path @ ''['' @ fmtV keyTyp k @ '']''"

subsection \<open>Chunk constructors\<close>

text \<open>
  The source's \<^verbatim>\<open>Changed\<close>, \<^verbatim>\<open>Added\<close> and \<^verbatim>\<open>Removed\<close>; \<^verbatim>\<open>Added\<close> is \<open>AddedChunk\<close>
  here, the name \<open>Added\<close> being the field's.
\<close>

definition Changed :: "val \<Rightarrow> val \<Rightarrow> string \<Rightarrow> chunk" where
  "Changed A B path = \<lparr>Deleted = [A], Added = [B], Path = path\<rparr>"

definition AddedChunk :: "val \<Rightarrow> string \<Rightarrow> chunk" where
  "AddedChunk B path = \<lparr>Deleted = [], Added = [B], Path = path\<rparr>"

definition Removed :: "val \<Rightarrow> string \<Rightarrow> chunk" where
  "Removed A path = \<lparr>Deleted = [A], Added = [], Path = path\<rparr>"

subsection \<open>The reflect operations the diff uses\<close>

definition Indirect :: "val \<Rightarrow> val" where
  "Indirect v = (case v of Pointer (Some x) \<Rightarrow> x | Pointer None \<Rightarrow> Zero | _ \<Rightarrow> v)"

text \<open>\<^verbatim>\<open>v.Field(i)\<close>; \<open>None\<close> where reflect panics (not a struct, or no such field).\<close>

definition FieldAt :: "val \<Rightarrow> nat \<Rightarrow> val option" where
  "FieldAt v i =
     (case v of Rec vs \<Rightarrow> (if i < length vs then Some (vs ! i) else None) | _ \<Rightarrow> None)"

text \<open>
  \<^verbatim>\<open>m.MapIndex(k)\<close>: the value of the entry whose key is \<^verbatim>\<open>==\<close> to \<open>k\<close>, the zero Value
  when there is none. A NaN key is never found.
\<close>

definition MapIndex :: "(ground \<times> val) list \<Rightarrow> ground \<Rightarrow> val" where
  "MapIndex m k =
     (case filter (\<lambda>e. ground_eq (fst e) k) m of [] \<Rightarrow> Zero | e # rest \<Rightarrow> snd e)"

text \<open>
  \<^verbatim>\<open>sort.Sort(sorted(diffs))\<close> with \<^verbatim>\<open>Less\<close> comparing the paths by
  \<^verbatim>\<open>strings.Compare\<close>, that is bytewise and lexically, which is the order of
  \<^typ>\<open>string\<close> here. \<^verbatim>\<open>sort.Sort\<close> promises a sorted permutation and no stability;
  on a short slice it runs an insertion sort, which is what \<^const>\<open>sort_key\<close> is. The
  general statements below say of the sorted list only that it is sorted by path and a
  permutation. The evaluation that shows an order among equal paths sorts two
  chunks, where \<^verbatim>\<open>sort.Sort\<close> makes the single comparison \<^verbatim>\<open>Less(1, 0)\<close> and, that
  being false, leaves the slice as it is.
\<close>

definition sort_chunks :: "chunk list \<Rightarrow> chunk list" where
  "sort_chunks diffs = sort_key Path diffs"

subsection \<open>diffValue, diffStruct, diffArrayOrSlice and diffMap\<close>

text \<open>
  The second loop of \<^verbatim>\<open>diffMap\<close>: the keys of \<open>b\<close> that \<open>a\<close> does not have.
  \<^verbatim>\<open>valB.Interface()\<close> panics on the zero Value, which is what \<^verbatim>\<open>b.MapIndex(keyB)\<close> is
  when the key is not \<^verbatim>\<open>==\<close> to itself.
\<close>

fun diffMap_keysB ::
  "(gotype \<Rightarrow> ground \<Rightarrow> string) \<Rightarrow> (ground \<times> val) list \<Rightarrow> (ground \<times> val) list \<Rightarrow> ground list
     \<Rightarrow> gotype \<Rightarrow> string \<Rightarrow> chunk list \<Rightarrow> derr + chunk list" where
  "diffMap_keysB fmtV a b [] keyTyp path diffs = Inr diffs"
| "diffMap_keysB fmtV a b (keyB # ks) keyTyp path diffs =
     (if MapIndex a keyB = Zero then
        (if MapIndex b keyB = Zero then Inl ReflectPanic
         else diffMap_keysB fmtV a b ks keyTyp path
                (diffs @ [AddedChunk (MapIndex b keyB) (key_path fmtV keyTyp path keyB)]))
      else diffMap_keysB fmtV a b ks keyTyp path diffs)"

text \<open>
  The four functions of the source, each with the arguments the source gives it, and
  the loops of three of them as recursive functions carrying the loop's variables:
  \<open>diffStruct_fields\<close> is the loop of \<^verbatim>\<open>diffStruct\<close> over the fields from index \<open>i\<close> on,
  \<open>diffArrayOrSlice_elems\<close> the first loop of \<^verbatim>\<open>diffArrayOrSlice\<close> over the elements
  from index \<open>i\<close> on together with the over- or underbite that follows it, and
  \<open>diffMap_keysA\<close> the first loop of \<^verbatim>\<open>diffMap\<close> over the keys of \<open>a\<close>. An error of a
  recursive call ends the loop with that error. \<^verbatim>\<open>Len\<close> and \<^verbatim>\<open>Field\<close> panic on the zero
  Value, and so does \<^verbatim>\<open>valA.Interface()\<close> in \<^verbatim>\<open>diffMap\<close>, where \<^verbatim>\<open>valA\<close> is the zero
  Value for a key of \<open>a\<close> that is not \<^verbatim>\<open>==\<close> to itself; \<^verbatim>\<open>diffMap\<close> checks the kinds
  itself. \<open>diffMap\<close> has one argument more than in the source, the key type, which
  there every key carries with it and \<^verbatim>\<open>%v\<close> reads.
\<close>

function (sequential)
  diffValue ::
    "(gotype \<Rightarrow> ground \<Rightarrow> string) \<Rightarrow> val \<Rightarrow> val \<Rightarrow> gotype \<Rightarrow> string \<Rightarrow> derr + chunk list"
and diffStruct ::
    "(gotype \<Rightarrow> ground \<Rightarrow> string) \<Rightarrow> val \<Rightarrow> val \<Rightarrow> gotype \<Rightarrow> string \<Rightarrow> derr + chunk list"
and diffStruct_fields ::
    "(gotype \<Rightarrow> ground \<Rightarrow> string) \<Rightarrow> val \<Rightarrow> val \<Rightarrow> sfield list \<Rightarrow> nat \<Rightarrow> string \<Rightarrow> chunk list
       \<Rightarrow> derr + chunk list"
and diffArrayOrSlice ::
    "(gotype \<Rightarrow> ground \<Rightarrow> string) \<Rightarrow> val \<Rightarrow> val \<Rightarrow> gotype \<Rightarrow> string \<Rightarrow> derr + chunk list"
and diffArrayOrSlice_elems ::
    "(gotype \<Rightarrow> ground \<Rightarrow> string) \<Rightarrow> val list \<Rightarrow> val list \<Rightarrow> gotype \<Rightarrow> string \<Rightarrow> nat
       \<Rightarrow> chunk list \<Rightarrow> derr + chunk list"
and diffMap ::
    "(gotype \<Rightarrow> ground \<Rightarrow> string) \<Rightarrow> val \<Rightarrow> val \<Rightarrow> gotype \<Rightarrow> gotype \<Rightarrow> string
       \<Rightarrow> derr + chunk list"
and diffMap_keysA ::
    "(gotype \<Rightarrow> ground \<Rightarrow> string) \<Rightarrow> (ground \<times> val) list \<Rightarrow> (ground \<times> val) list \<Rightarrow> ground list
       \<Rightarrow> gotype \<Rightarrow> gotype \<Rightarrow> string \<Rightarrow> chunk list \<Rightarrow> derr + chunk list"
where
  "diffValue fmtV a b (Array n t) path = diffArrayOrSlice fmtV a b (Array n t) path"
| "diffValue fmtV a b (Slice t) path = diffArrayOrSlice fmtV a b (Slice t) path"
| "diffValue fmtV a b Interface path = Inl ErrInterfaceDiff"
| "diffValue fmtV a b (Ptr t) path = diffValue fmtV (Indirect a) (Indirect b) t path"
| "diffValue fmtV a b (Struct fs) path = diffStruct fmtV a b (Struct fs) path"
| "diffValue fmtV a b (Map kt t) path = diffMap fmtV a b kt t path"
| "diffValue fmtV a b Func path = Inl ErrFuncDiff"
| "diffValue fmtV a b (Ground k) path =
     (case (a, b) of
        (G x, G y) \<Rightarrow> (if \<not> ground_eq x y then Inr [Changed a b path] else Inr [])
      | _ \<Rightarrow> Inl ReflectPanic)"
| "diffValue fmtV a b (Named n t) path = diffValue fmtV a b t path"
| "diffStruct fmtV a b (Struct fs) path = diffStruct_fields fmtV a b fs 0 path []"
| "diffStruct fmtV a b (Named n t) path = diffStruct fmtV a b t path"
| "diffStruct fmtV a b structTyp path = Inl ReflectPanic"
| "diffStruct_fields fmtV a b [] i path diffs = Inr diffs"
| "diffStruct_fields fmtV a b (f # fs) i path diffs =
     (if exported f then
        (case (FieldAt a i, FieldAt b i) of
           (Some x, Some y) \<Rightarrow>
             (case diffValue fmtV x y (ftype f) (path @ ''.'' @ fname f) of
                Inl e \<Rightarrow> Inl e
              | Inr fieldDiffs \<Rightarrow>
                  diffStruct_fields fmtV a b fs (Suc i) path (diffs @ fieldDiffs))
         | _ \<Rightarrow> Inl ReflectPanic)
      else diffStruct_fields fmtV a b fs (Suc i) path diffs)"
| "diffArrayOrSlice fmtV a b (Array n t) path =
     (case (a, b) of
        (Seq as, Seq bs) \<Rightarrow> diffArrayOrSlice_elems fmtV as bs t path 0 []
      | _ \<Rightarrow> Inl ReflectPanic)"
| "diffArrayOrSlice fmtV a b (Slice t) path =
     (case (a, b) of
        (Seq as, Seq bs) \<Rightarrow> diffArrayOrSlice_elems fmtV as bs t path 0 []
      | _ \<Rightarrow> Inl ReflectPanic)"
| "diffArrayOrSlice fmtV a b (Named n t) path = diffArrayOrSlice fmtV a b t path"
| "diffArrayOrSlice fmtV a b sliceTyp path = Inl ReflectPanic"
| "diffArrayOrSlice_elems fmtV (x # as) (y # bs) t path i changed =
     (case diffValue fmtV x y t (index_path path i) of
        Inl e \<Rightarrow> Inl e
      | Inr d \<Rightarrow> diffArrayOrSlice_elems fmtV as bs t path (Suc i) (changed @ d))"
| "diffArrayOrSlice_elems fmtV (x # as) [] t path i changed =
     Inr (changed @ [\<lparr>Deleted = x # as, Added = [], Path = index_path path i\<rparr>])"
| "diffArrayOrSlice_elems fmtV [] (y # bs) t path i changed =
     Inr (changed @ [\<lparr>Deleted = [], Added = y # bs, Path = index_path path i\<rparr>])"
| "diffArrayOrSlice_elems fmtV [] [] t path i changed = Inr changed"
| "diffMap fmtV a b keyTyp elemTyp path =
     (case (a, b) of
        (Mapping ea, Mapping eb) \<Rightarrow>
          (case diffMap_keysA fmtV ea eb (map fst ea) keyTyp elemTyp path [] of
             Inl e \<Rightarrow> Inl e
           | Inr diffs \<Rightarrow>
               (case diffMap_keysB fmtV ea eb (map fst eb) keyTyp path diffs of
                  Inl e \<Rightarrow> Inl e
                | Inr allDiffs \<Rightarrow> Inr (sort_chunks allDiffs)))
      | _ \<Rightarrow> Inl ErrBothMaps)"
| "diffMap_keysA fmtV a b [] keyTyp t path diffs = Inr diffs"
| "diffMap_keysA fmtV a b (keyA # ks) keyTyp t path diffs =
     (if MapIndex b keyA \<noteq> Zero then
        (case diffValue fmtV (MapIndex a keyA) (MapIndex b keyA) t (key_path fmtV keyTyp path keyA) of
           Inl e \<Rightarrow> Inl e
         | Inr moreDiffs \<Rightarrow> diffMap_keysA fmtV a b ks keyTyp t path (diffs @ moreDiffs))
      else if MapIndex a keyA = Zero then Inl ReflectPanic
      else diffMap_keysA fmtV a b ks keyTyp t path
             (diffs @ [Removed (MapIndex a keyA) (key_path fmtV keyTyp path keyA)]))"
  by pat_completeness auto

termination
  apply (relation "measures [
    (\<lambda>x. case x of
       Inl (Inl (fmtV, a, b, t, path)) \<Rightarrow> size t
     | Inl (Inr (Inl (fmtV, a, b, t, path))) \<Rightarrow> size t
     | Inl (Inr (Inr (fmtV, a, b, fs, i, path, diffs))) \<Rightarrow> size_list size fs
     | Inr (Inl (Inl (fmtV, a, b, t, path))) \<Rightarrow> size t
     | Inr (Inl (Inr (fmtV, as, bs, t, path, i, changed))) \<Rightarrow> size t
     | Inr (Inr (Inl (fmtV, a, b, kt, t, path))) \<Rightarrow> size t
     | Inr (Inr (Inr (fmtV, a, b, ks, kt, t, path, diffs))) \<Rightarrow> size t),
    (\<lambda>x. case x of
       Inl (Inl (fmtV, a, b, t, path)) \<Rightarrow> 1
     | Inl (Inr (Inl (fmtV, a, b, t, path))) \<Rightarrow> 0
     | Inl (Inr (Inr (fmtV, a, b, fs, i, path, diffs))) \<Rightarrow> 0
     | Inr (Inl (Inl (fmtV, a, b, t, path))) \<Rightarrow> 0
     | Inr (Inl (Inr (fmtV, as, bs, t, path, i, changed))) \<Rightarrow> Suc (Suc (length as))
     | Inr (Inr (Inl (fmtV, a, b, kt, t, path))) \<Rightarrow>
         (case a of Mapping ea \<Rightarrow> Suc (Suc (Suc (length ea))) | _ \<Rightarrow> 0)
     | Inr (Inr (Inr (fmtV, a, b, ks, kt, t, path, diffs))) \<Rightarrow> Suc (Suc (length ks)))]")
  apply auto
  subgoal for a b f by (cases f) simp
  done


text \<open>
  \<^verbatim>\<open>Diff\<close>: different runtime types are not comparable. Two nil interfaces have the same
  (nil) type, and \<^verbatim>\<open>typ.Kind()\<close> on it panics.
\<close>

definition Diff :: "(gotype \<Rightarrow> ground \<Rightarrow> string) \<Rightarrow> iface \<Rightarrow> iface \<Rightarrow> derr + chunk list" where
  "Diff fmtV a b =
     (if TypeOf a \<noteq> TypeOf b then Inl ErrNotDiffable
      else (case (a, b) of
              (Some (typA, x), Some (typB, y)) \<Rightarrow> diffValue fmtV x y typA ''''
            | _ \<Rightarrow> Inl ReflectPanic))"

subsection \<open>Keys of the predeclared types\<close>

text \<open>
  The predeclared types \<^verbatim>\<open>bool\<close>, \<^verbatim>\<open>int\<close> and \<^verbatim>\<open>string\<close> have no methods, and \<^verbatim>\<open>%v\<close>
  prints a key of these types as \<^verbatim>\<open>true\<close> or \<^verbatim>\<open>false\<close>, in decimal, and as the string
  itself. \<open>fmt_v fmtV\<close> is a printer that does so and prints every other key as \<open>fmtV\<close>
  does.
\<close>

definition fmt_int :: "int \<Rightarrow> string" where
  "fmt_int i = (if i < 0 then ''-'' @ fmt_d (nat (- i)) else fmt_d (nat i))"

definition fmt_v :: "(gotype \<Rightarrow> ground \<Rightarrow> string) \<Rightarrow> gotype \<Rightarrow> ground \<Rightarrow> string" where
  "fmt_v fmtV keyTyp k =
     (case (keyTyp, k) of
        (Ground KBool, GBool b) \<Rightarrow> (if b then ''true'' else ''false'')
      | (Ground KInt, GInt i) \<Rightarrow> fmt_int i
      | (Ground KString, GString s) \<Rightarrow> s
      | _ \<Rightarrow> fmtV keyTyp k)"

subsection \<open>Values that compare equal to themselves\<close>

text \<open>
  \<open>diffable t v\<close> describes the values \<open>v\<close>, held at type \<open>t\<close>, in which the comparison
  meets nothing it refuses or reports. The comparison visits the elements of an array
  or slice, what a pointer points to, the exported fields of a struct and the values
  of a map. The condition is that no visited part has interface or func type, that
  every visited ground value is \<^verbatim>\<open>==\<close> to itself (is not NaN and has no NaN part), that
  every key of a visited map is found in the map (is \<^verbatim>\<open>==\<close> to itself), and that a
  nil pointer is visited only where nothing is read from the zero Value it yields,
  which is at a pointer, through further pointers, to a struct with no exported field
  (\<^verbatim>\<open>reflect.Indirect\<close> passes the zero Value on, and \<^verbatim>\<open>diffStruct\<close> reads a field of
  the value only for an exported field of the type).
  Unexported fields, and what lies behind them, are not visited and may hold anything.
\<close>

function (sequential) diffable :: "gotype \<Rightarrow> val \<Rightarrow> bool" where
  "diffable (Ground k) v = (case v of G g \<Rightarrow> ground_eq g g | _ \<Rightarrow> False)"
| "diffable (Array n t) v = (case v of Seq vs \<Rightarrow> (\<forall>x \<in> set vs. diffable t x) | _ \<Rightarrow> False)"
| "diffable (Slice t) v = (case v of Seq vs \<Rightarrow> (\<forall>x \<in> set vs. diffable t x) | _ \<Rightarrow> False)"
| "diffable Interface v = False"
| "diffable Func v = False"
| "diffable (Ptr t) v = diffable t (Indirect v)"
| "diffable (Struct fs) v =
     (\<forall>i \<in> set [0 ..< length fs]. exported (fs ! i) \<longrightarrow>
        (case FieldAt v i of Some x \<Rightarrow> diffable (ftype (fs ! i)) x | None \<Rightarrow> False))"
| "diffable (Map kt t) v =
     (case v of
        Mapping es \<Rightarrow>
          (\<forall>k \<in> set (map fst es). MapIndex es k \<noteq> Zero \<and> diffable t (MapIndex es k))
      | _ \<Rightarrow> False)"
| "diffable (Named n t) v = diffable t v"
  by pat_completeness auto

termination
  apply (relation "measure (\<lambda>(t, v). size t)")
  apply auto
  subgoal for fs v i
    apply (rule less_SucI)
    apply (rule size_list_estimation [where x = "fs ! i"])
     apply simp
    apply (cases "fs ! i")
    apply simp
    done
  done

text \<open>The element type of a type whose kind is array or slice.\<close>

fun seq_elem :: "gotype \<Rightarrow> gotype option" where
  "seq_elem (Array n t) = Some t"
| "seq_elem (Slice t) = Some t"
| "seq_elem (Named n t) = seq_elem t"
| "seq_elem t = None"

subsection \<open>The two loops of diffMap as lists\<close>

text \<open>
  What the first loop of \<^verbatim>\<open>diffMap\<close> appends for the keys \<open>ks\<close> when it runs to its end,
  and what the second loop appends.
\<close>

definition keysA_chunks ::
  "(gotype \<Rightarrow> ground \<Rightarrow> string) \<Rightarrow> (ground \<times> val) list \<Rightarrow> (ground \<times> val) list \<Rightarrow> gotype
     \<Rightarrow> gotype \<Rightarrow> string \<Rightarrow> ground list \<Rightarrow> chunk list" where
  "keysA_chunks fmtV a b keyTyp t path ks =
     concat (map (\<lambda>k. if MapIndex b k \<noteq> Zero
                       then projr (diffValue fmtV (MapIndex a k) (MapIndex b k) t
                                     (key_path fmtV keyTyp path k))
                       else [Removed (MapIndex a k) (key_path fmtV keyTyp path k)]) ks)"

definition keysB_chunks ::
  "(gotype \<Rightarrow> ground \<Rightarrow> string) \<Rightarrow> (ground \<times> val) list \<Rightarrow> (ground \<times> val) list \<Rightarrow> gotype
     \<Rightarrow> string \<Rightarrow> ground list \<Rightarrow> chunk list" where
  "keysB_chunks fmtV a b keyTyp path ks =
     map (\<lambda>k. AddedChunk (MapIndex b k) (key_path fmtV keyTyp path k))
       (filter (\<lambda>k. MapIndex a k = Zero) ks)"


section \<open>The HTTP transport: package http, its client, and the daemon registration\<close>

subsection \<open>Errors\<close>

text \<open>
  Modelled from the spec: \<^verbatim>\<open>flux.BaseError\<close> is declared in a file of the repository
  that is not among the sources read here. Per the specification a classified error
  carries a machine message and a human help string; the source reads the field
  \<^verbatim>\<open>Help\<close> and calls \<^verbatim>\<open>Error()\<close>.
\<close>

record base_error =
  Err :: string
  Help :: string

text \<open>
  A Go \<^verbatim>\<open>error\<close> value by its dynamic type: the three classified struct types that
  embed a \<^verbatim>\<open>*flux.BaseError\<close>, a bare \<^verbatim>\<open>*flux.BaseError\<close>, any other error (by its
  text), and an error wrapped with a message by \<^verbatim>\<open>errors.Wrap\<close>. Errors and the
  embedded pointers are taken to be non-nil.
\<close>

datatype err =
    Missing base_error
  | UserConfigProblem base_error
  | ServerException base_error
  | BaseErrorPtr base_error
  | Plain string
  | Wrapped string err

text \<open>\<^verbatim>\<open>errors.Cause\<close> and the method \<^verbatim>\<open>Error()\<close>.\<close>

fun Cause :: "err \<Rightarrow> err" where
  "Cause (Wrapped msg e) = Cause e"
| "Cause e = e"

fun ErrorText :: "err \<Rightarrow> string" where
  "ErrorText (Missing b) = Err b"
| "ErrorText (UserConfigProblem b) = Err b"
| "ErrorText (ServerException b) = Err b"
| "ErrorText (BaseErrorPtr b) = Err b"
| "ErrorText (Plain s) = s"
| "ErrorText (Wrapped msg e) = msg @ '': '' @ ErrorText e"

subsection \<open>Requests, response writers and responses\<close>

text \<open>
  A handler acts on its \<^verbatim>\<open>http.ResponseWriter\<close> by three calls; the writer is modelled
  by the list of the calls made on it, in order. \<open>Get\<close> is \<^verbatim>\<open>Header.Get\<close>, which
  returns the empty string for an absent key.
\<close>

datatype event =
    SetHeader string string
  | WriteHeader int
  | Write string

type_synonym response_writer = "event list"

record request =
  ReqHeader :: "string \<rightharpoonup> string"

record response =
  StatusCode :: int
  Status :: string
  RespHeader :: "string \<rightharpoonup> string"
  Body :: "err + string"

definition Get :: "(string \<rightharpoonup> string) \<Rightarrow> string \<Rightarrow> string" where
  "Get h key = (case h key of None \<Rightarrow> '''' | Some v \<Rightarrow> v)"

definition HasPrefix :: "string \<Rightarrow> string \<Rightarrow> bool" where
  "HasPrefix s p = (take (length p) s = p)"

abbreviation StatusOK :: int where "StatusOK \<equiv> 200"
abbreviation StatusCreated :: int where "StatusCreated \<equiv> 201"
abbreviation StatusNoContent :: int where "StatusNoContent \<equiv> 204"
abbreviation StatusBadRequest :: int where "StatusBadRequest \<equiv> 400"
abbreviation StatusUnauthorized :: int where "StatusUnauthorized \<equiv> 401"
abbreviation StatusNotFound :: int where "StatusNotFound \<equiv> 404"
abbreviation StatusGone :: int where "StatusGone \<equiv> 410"
abbreviation StatusUnprocessableEntity :: int where "StatusUnprocessableEntity \<equiv> 422"
abbreviation StatusInternalServerError :: int where "StatusInternalServerError \<equiv> 500"

subsection \<open>WriteError, JSONResponse and ErrorResponse\<close>

text \<open>
  \<^verbatim>\<open>WriteError\<close>. Two functions it calls are not among the sources read here and are
  parameters:
  \<open>negotiateContentType\<close> (of this package) and \<open>jsonMarshal\<close>, which is
  \<^verbatim>\<open>json.Marshal\<close> on an error value (it runs the \<^verbatim>\<open>MarshalJSON\<close> of \<^verbatim>\<open>flux.BaseError\<close>)
  and returns the encoding error or the body.
\<close>

definition WriteError ::
  "(request \<Rightarrow> string list \<Rightarrow> string) \<Rightarrow> (err \<Rightarrow> err + string) \<Rightarrow>
   response_writer \<Rightarrow> request \<Rightarrow> int \<Rightarrow> err \<Rightarrow> response_writer" where
  "WriteError negotiateContentType jsonMarshal w r code e =
     (let plain = w @ [SetHeader ''Content-Type'' ''text/plain; charset=utf-8'',
                       WriteHeader code,
                       Write (ErrorText e)]
      in
      if length (Get (ReqHeader r) ''Accept'') > 0 then
        (let negotiated = negotiateContentType r [''application/json'', ''text/plain''] in
         if negotiated = ''application/json'' then
           (case jsonMarshal e of
              Inl encodeErr \<Rightarrow>
                w @ [SetHeader ''Content-Type'' ''text/plain; charset=utf-8'',
                     WriteHeader StatusInternalServerError,
                     Write (''Error encoding error response: '' @ ErrorText encodeErr
                            @ [CHR 0x0A, CHR 0x0A] @ ''Original error: '' @ ErrorText e)]
            | Inr body \<Rightarrow>
                w @ [SetHeader ''Content-Type'' ''application/json; charset=utf-8'',
                     WriteHeader code,
                     Write body])
         else if negotiated = ''text/plain'' then
           w @ [SetHeader ''Content-Type'' ''text/plain; charset=utf-8'',
                WriteHeader code,
                Write (case e of BaseErrorPtr b \<Rightarrow> Help b | _ \<Rightarrow> ErrorText e)]
         else plain)
      else plain)"

text \<open>
  The type switch of \<^verbatim>\<open>ErrorResponse\<close> on the cause of the error: the status code and
  the \<^verbatim>\<open>*flux.BaseError\<close> to write. \<open>CoverAllError\<close> is \<^verbatim>\<open>flux.CoverAllError\<close>, not
  among the sources read here and a parameter; its result is assigned to \<^verbatim>\<open>outErr\<close>, a
  \<^verbatim>\<open>*flux.BaseError\<close>.
\<close>

definition ErrorResponse_switch :: "(err \<Rightarrow> base_error) \<Rightarrow> err \<Rightarrow> int \<times> base_error" where
  "ErrorResponse_switch CoverAllError apiError =
     (case Cause apiError of
        Missing b \<Rightarrow> (StatusNotFound, b)
      | UserConfigProblem b \<Rightarrow> (StatusUnprocessableEntity, b)
      | ServerException b \<Rightarrow> (StatusInternalServerError, b)
      | _ \<Rightarrow> (StatusInternalServerError, CoverAllError apiError))"

definition ErrorResponse ::
  "(request \<Rightarrow> string list \<Rightarrow> string) \<Rightarrow> (err \<Rightarrow> err + string) \<Rightarrow> (err \<Rightarrow> base_error) \<Rightarrow>
   response_writer \<Rightarrow> request \<Rightarrow> err \<Rightarrow> response_writer" where
  "ErrorResponse negotiateContentType jsonMarshal CoverAllError w r apiError =
     (case ErrorResponse_switch CoverAllError apiError of
        (code, outErr) \<Rightarrow> WriteError negotiateContentType jsonMarshal w r code (BaseErrorPtr outErr))"

text \<open>
  \<^verbatim>\<open>JSONResponse\<close>; \<open>marshalResult\<close> is \<^verbatim>\<open>json.Marshal\<close> on the result value.
\<close>

definition JSONResponse ::
  "(request \<Rightarrow> string list \<Rightarrow> string) \<Rightarrow> (err \<Rightarrow> err + string) \<Rightarrow> (err \<Rightarrow> base_error) \<Rightarrow>
   ('a \<Rightarrow> err + string) \<Rightarrow> response_writer \<Rightarrow> request \<Rightarrow> 'a \<Rightarrow> response_writer" where
  "JSONResponse negotiateContentType jsonMarshal CoverAllError marshalResult w r result =
     (case marshalResult result of
        Inl e \<Rightarrow> ErrorResponse negotiateContentType jsonMarshal CoverAllError w r e
      | Inr body \<Rightarrow>
          w @ [SetHeader ''Content-Type'' ''application/json; charset=utf-8'',
               WriteHeader StatusOK,
               Write body])"

subsection \<open>The client's executeRequest\<close>

text \<open>
  \<^verbatim>\<open>executeRequest\<close>, given what \<^verbatim>\<open>c.client.Do(req)\<close> returned. \<open>Body\<close> is what reading
  the body to its end gives. \<open>ErrorUnauthorized\<close> is the variable
  \<^verbatim>\<open>transport.ErrorUnauthorized\<close> and \<open>jsonDecode\<close> is \<^verbatim>\<open>json.Decoder.Decode\<close> into a
  \<^verbatim>\<open>flux.BaseError\<close>; neither is among the sources read here, both are parameters.
  The result is the
  pair the source returns: the response (nil when \<^verbatim>\<open>Do\<close> failed) and the error (nil on
  success).
\<close>

definition executeRequest ::
  "err \<Rightarrow> (string \<Rightarrow> err + base_error) \<Rightarrow> err + response \<Rightarrow> response option \<times> err option" where
  "executeRequest ErrorUnauthorized jsonDecode doResult =
     (case doResult of
        Inl e \<Rightarrow> (None, Some (Wrapped ''executing HTTP request'' e))
      | Inr resp \<Rightarrow>
          if StatusCode resp = StatusOK \<or> StatusCode resp = StatusCreated
             \<or> StatusCode resp = StatusNoContent then (Some resp, None)
          else if StatusCode resp = StatusUnauthorized then (Some resp, Some ErrorUnauthorized)
          else if HasPrefix (Get (RespHeader resp) ''Content-Type'') ''application/json'' then
            (case (case Body resp of Inl e \<Rightarrow> Inl e | Inr bytes \<Rightarrow> jsonDecode bytes) of
               Inl e \<Rightarrow> (Some resp, Some (Wrapped ''decoding error in response body'' e))
             | Inr niceError \<Rightarrow> (Some resp, Some (BaseErrorPtr niceError)))
          else
            (case Body resp of
               Inl e \<Rightarrow> (Some resp, Some (Wrapped ''reading assumed plaintext response body'' e))
             | Inr body \<Rightarrow> (Some resp, Some (Plain (Status resp @ '' '' @ body)))))"

subsection \<open>doRegister\<close>

text \<open>
  What \<^verbatim>\<open>doRegister\<close> does, as the list of its actions in order: calls on the response
  writer, the call of \<^verbatim>\<open>newRPCFn\<close> on the upgraded connection, and the calls of
  \<^verbatim>\<open>RegisterDaemon\<close> and \<^verbatim>\<open>Close\<close> on the RPC client. \<open>upgrade\<close> is what
  \<^verbatim>\<open>websocket.Upgrade(w, r, nil)\<close> returned; what that call itself writes to \<open>w\<close> is not
  part of the model. \<^verbatim>\<open>fmt.Fprintf(w, err.Error())\<close> takes the error text as a format:
  a text without \<^verbatim>\<open>%\<close> is written as it is, any other as \<open>fmtVerbs\<close> (package fmt)
  renders it. \<open>InstanceIDHeaderKey\<close> is a constant declared elsewhere in the
  repository.
\<close>

datatype ('c, 'p) action =
    Respond event
  | NewRPC 'c
  | RegisterDaemon string 'p
  | ClosePlatform 'p

definition getInstanceID :: "string \<Rightarrow> request \<Rightarrow> string" where
  "getInstanceID InstanceIDHeaderKey req = Get (ReqHeader req) InstanceIDHeaderKey"

definition Fprintf0 :: "(string \<Rightarrow> string) \<Rightarrow> string \<Rightarrow> string" where
  "Fprintf0 fmtVerbs format = (if CHR ''%'' \<in> set format then fmtVerbs format else format)"

definition doRegister ::
  "string \<Rightarrow> (string \<Rightarrow> string) \<Rightarrow> err + 'c \<Rightarrow> ('c \<Rightarrow> 'p) \<Rightarrow> request \<Rightarrow> ('c, 'p) action list" where
  "doRegister InstanceIDHeaderKey fmtVerbs upgrade newRPCFn r =
     (let inst = getInstanceID InstanceIDHeaderKey r in
      case upgrade of
        Inl e \<Rightarrow>
          [Respond (WriteHeader StatusBadRequest),
           Respond (Write (Fprintf0 fmtVerbs (ErrorText e)))]
      | Inr ws \<Rightarrow>
          (let rpcClient = newRPCFn ws in
           [NewRPC ws, RegisterDaemon inst rpcClient, ClosePlatform rpcClient]))"

subsection \<open>MakeURL\<close>

text \<open>
  A \<^verbatim>\<open>url.URL\<close> by the fields in play, and \<^verbatim>\<open>url.Values\<close>, a map from a key to the list
  of its values (absent is the empty list). A panic is a result of its own kind:
  the explicit one of \<^verbatim>\<open>MakeURL\<close>, the nil dereference of \<^verbatim>\<open>router.Get(routeName).URL()\<close>
  for a route name the router does not have, and an index out of range.
\<close>

record url =
  Scheme :: string
  Host :: string
  URLPath :: string
  RawQuery :: string

type_synonym url_values = "string \<Rightarrow> string list"

datatype panic = UrlParamsMustBeEven | NilRoute | IndexOutOfRange

definition Add :: "url_values \<Rightarrow> string \<Rightarrow> string \<Rightarrow> url_values" where
  "Add v key value = v(key := v key @ [value])"

text \<open>The loop \<^verbatim>\<open>for i := 0; i < len(urlParams); i += 2\<close>.\<close>

function MakeURL_params :: "string list \<Rightarrow> nat \<Rightarrow> url_values \<Rightarrow> panic + url_values" where
  "MakeURL_params urlParams i v =
     (if i < length urlParams then
        (if i + 1 < length urlParams
         then MakeURL_params urlParams (i + 2) (Add v (urlParams ! i) (urlParams ! (i + 1)))
         else Inl IndexOutOfRange)
      else Inr v)"
  by pat_completeness auto

termination
  by (relation "measure (\<lambda>(urlParams, i, v). length urlParams - i)") auto

declare MakeURL_params.simps [simp del]

text \<open>
  \<^verbatim>\<open>MakeURL\<close>. Library and router are parameters: \<open>urlParse\<close> is \<^verbatim>\<open>url.Parse\<close>,
  \<open>router\<close> gives for a route name what \<^verbatim>\<open>router.Get(routeName).URL()\<close> returns (\<open>None\<close>:
  no such route), \<open>pathJoin\<close> is \<^verbatim>\<open>path.Join\<close> and \<open>encode\<close> is \<^verbatim>\<open>Values.Encode\<close>.
\<close>

definition MakeURL ::
  "(string \<Rightarrow> err + url) \<Rightarrow> (string \<rightharpoonup> err + url) \<Rightarrow> (string \<Rightarrow> string \<Rightarrow> string) \<Rightarrow>
   (url_values \<Rightarrow> string) \<Rightarrow> string \<Rightarrow> string \<Rightarrow> string list \<Rightarrow> panic + (err + url)" where
  "MakeURL urlParse router pathJoin encode endpoint routeName urlParams =
     (if length urlParams mod 2 \<noteq> 0 then Inl UrlParamsMustBeEven
      else
        (case urlParse endpoint of
           Inl e \<Rightarrow> Inr (Inl (Wrapped (''parsing endpoint '' @ endpoint) e))
         | Inr endpointURL \<Rightarrow>
             (case router routeName of
                None \<Rightarrow> Inl NilRoute
              | Some (Inl e) \<Rightarrow> Inr (Inl (Wrapped (''retrieving route path '' @ routeName) e))
              | Some (Inr routeURL) \<Rightarrow>
                  (case MakeURL_params urlParams 0 (\<lambda>key. []) of
                     Inl p \<Rightarrow> Inl p
                   | Inr v \<Rightarrow>
                       Inr (Inr (endpointURL
                         \<lparr>URLPath := pathJoin (URLPath endpointURL) (URLPath routeURL),
                          RawQuery := encode v\<rparr>))))))"

text \<open>
  The pairing of consecutive parameters in the claim's words, for comparison with the
  loop: the list of key/value pairs, and the values they give each key, in order.
\<close>

fun pairs :: "string list \<Rightarrow> (string \<times> string) list" where
  "pairs (key # value # rest) = (key, value) # pairs rest"
| "pairs rest = []"

definition values_of_pairs :: "(string \<times> string) list \<Rightarrow> url_values" where
  "values_of_pairs ps = (\<lambda>key. map snd (filter (\<lambda>p. fst p = key) ps))"

subsection \<open>A sample environment\<close>

text \<open>
  Concrete stand-ins for the parameters above, for running the functions on concrete
  inputs: a negotiation that serves a request whose \<^verbatim>\<open>Accept\<close> header names one media
  type, a cover-all error, the transport's unauthorized error, and a JSON codec. The
  codec is specified at two error values: the sample \<^verbatim>\<open>*flux.BaseError\<close>, which it
  encodes and decodes, and \<open>sample_unencodable\<close>, an error with the text "stream closed"
  whose type has an exported field of channel type, which \<^verbatim>\<open>json.Marshal\<close> refuses with
  an \<^verbatim>\<open>UnsupportedTypeError\<close>. At every other error the stand-in answers with the empty
  object, and no statement below runs it there.
\<close>

definition sample_negotiate :: "request \<Rightarrow> string list \<Rightarrow> string" where
  "sample_negotiate r offers =
     (if Get (ReqHeader r) ''Accept'' \<in> set offers then Get (ReqHeader r) ''Accept'' else '''')"

definition sample_error :: base_error where
  "sample_error = \<lparr>Err = ''no such service'', Help = ''check the service name''\<rparr>"

definition sample_body :: string where
  "sample_body = ''{sample_error as JSON}''"

definition sample_unencodable :: err where
  "sample_unencodable = Plain ''stream closed''"

definition sample_marshal :: "err \<Rightarrow> err + string" where
  "sample_marshal e =
     (if e = BaseErrorPtr sample_error then Inr sample_body
      else if e = sample_unencodable then Inl (Plain ''json: unsupported type: chan int'')
      else Inr ''{}'')"

definition sample_decode :: "string \<Rightarrow> err + base_error" where
  "sample_decode bytes =
     (if bytes = sample_body then Inr sample_error else Inl (Plain ''invalid character''))"

definition sample_cover_all :: "err \<Rightarrow> base_error" where
  "sample_cover_all e = \<lparr>Err = ErrorText e, Help = ''Internal server error''\<rparr>"

definition sample_unauthorized :: err where
  "sample_unauthorized =
     BaseErrorPtr \<lparr>Err = ''request failed authentication'', Help = ''log in again''\<rparr>"

definition accept_json :: request where
  "accept_json = \<lparr>ReqHeader = [''Accept'' \<mapsto> ''application/json'']\<rparr>"

definition accept_text :: request where
  "accept_text = \<lparr>ReqHeader = [''Accept'' \<mapsto> ''text/plain'']\<rparr>"

definition no_accept :: request where
  "no_accept = \<lparr>ReqHeader = Map.empty\<rparr>"

section \<open>Properties of the diff\<close>

text \<open>
  C3. Two values whose runtime types differ are not comparable: \<open>Diff\<close> fails with
  \<open>ErrNotDiffable\<close> and returns no chunk list.
\<close>

theorem Diff_type_mismatch:
  "TypeOf v \<noteq> TypeOf w \<Longrightarrow>
   Diff fmtV v w = Inl ErrNotDiffable \<and> (\<forall>cs. Diff fmtV v w \<noteq> Inr cs)"
  by (simp add: Diff_def)

theorem Diff_type_mismatch_witness:
  "\<forall>fmtV.
     TypeOf (Some (Ground KInt, G (GInt 1))) \<noteq> TypeOf (Some (Named ''ID'' (Ground KInt), G (GInt 1)))
     \<and> Diff fmtV (Some (Ground KInt, G (GInt 1))) (Some (Named ''ID'' (Ground KInt), G (GInt 1)))
         = Inl ErrNotDiffable"
  using Diff_type_mismatch [of "Some (Ground KInt, G (GInt 1))"
      "Some (Named ''ID'' (Ground KInt), G (GInt 1))"]
  by (simp add: TypeOf_def)


subsection \<open>Equal inputs\<close>

lemma sort_chunks_Nil: "(sort_chunks r = []) = (r = [])"
  unfolding sort_chunks_def by (metis length_sort length_0_conv)

lemma elems_self:
  "(\<And>x p. x \<in> set xs \<Longrightarrow> (diffValue fmtV x x t p = Inr []) = Q x) \<Longrightarrow>
   (diffArrayOrSlice_elems fmtV xs xs t path i changed = Inr [])
     = (changed = [] \<and> (\<forall>x \<in> set xs. Q x))"
proof (induction xs arbitrary: i changed)
  case Nil
  then show ?case by simp
next
  case (Cons x xs)
  have hd: "(diffValue fmtV x x t p = Inr []) = Q x" for p
    using Cons.prems by simp
  have tl: "(diffArrayOrSlice_elems fmtV xs xs t path i' c' = Inr [])
     = (c' = [] \<and> (\<forall>x \<in> set xs. Q x))" for i' c'
    by (rule Cons.IH) (use Cons.prems in simp)
  show ?case
  proof (cases "diffValue fmtV x x t (index_path path i)")
    case (Inl e)
    with hd [of "index_path path i"] show ?thesis by simp
  next
    case (Inr d)
    with hd [of "index_path path i"] tl show ?thesis by auto
  qed
qed

lemma keysB_self:
  "(diffMap_keysB fmtV a a ks kt path diffs = Inr [])
     = (diffs = [] \<and> (\<forall>k \<in> set ks. MapIndex a k \<noteq> Zero))"
  by (induction ks arbitrary: diffs) auto

lemma keysA_self:
  "(\<And>k p. k \<in> set ks \<Longrightarrow> MapIndex a k \<noteq> Zero \<Longrightarrow>
      (diffValue fmtV (MapIndex a k) (MapIndex a k) t p = Inr []) = Q (MapIndex a k)) \<Longrightarrow>
   (diffMap_keysA fmtV a a ks kt t path diffs = Inr [])
     = (diffs = [] \<and> (\<forall>k \<in> set ks. MapIndex a k \<noteq> Zero \<and> Q (MapIndex a k)))"
proof (induction ks arbitrary: diffs)
  case Nil
  then show ?case by simp
next
  case (Cons k ks)
  have tl: "(diffMap_keysA fmtV a a ks kt t path c' = Inr [])
     = (c' = [] \<and> (\<forall>k \<in> set ks. MapIndex a k \<noteq> Zero \<and> Q (MapIndex a k)))" for c'
    by (rule Cons.IH) (use Cons.prems in simp)
  show ?case
  proof (cases "MapIndex a k = Zero")
    case True
    then show ?thesis by simp
  next
    case False
    have hd: "(diffValue fmtV (MapIndex a k) (MapIndex a k) t p = Inr []) = Q (MapIndex a k)" for p
      using Cons.prems [of k p] False by simp
    show ?thesis
    proof (cases "diffValue fmtV (MapIndex a k) (MapIndex a k) t (key_path fmtV kt path k)")
      case (Inl e)
      with hd [of "key_path fmtV kt path k"] False show ?thesis by simp
    next
      case (Inr d)
      with hd [of "key_path fmtV kt path k"] False tl show ?thesis by auto
    qed
  qed
qed

lemma fields_self:
  "(\<And>j x p. j < length fs \<Longrightarrow> exported (fs ! j) \<Longrightarrow> FieldAt v (i + j) = Some x \<Longrightarrow>
      (diffValue fmtV x x (ftype (fs ! j)) p = Inr []) = D (fs ! j) x) \<Longrightarrow>
   (diffStruct_fields fmtV v v fs i path diffs = Inr [])
     = (diffs = [] \<and> (\<forall>j < length fs. exported (fs ! j) \<longrightarrow>
          (case FieldAt v (i + j) of Some x \<Rightarrow> D (fs ! j) x | None \<Rightarrow> False)))"
proof (induction fs arbitrary: i diffs)
  case Nil
  then show ?case by simp
next
  case (Cons f fs)
  have tl: "(diffStruct_fields fmtV v v fs (Suc i) path c' = Inr [])
     = (c' = [] \<and> (\<forall>j < length fs. exported (fs ! j) \<longrightarrow>
          (case FieldAt v (Suc i + j) of Some x \<Rightarrow> D (fs ! j) x | None \<Rightarrow> False)))" for c'
  proof (rule Cons.IH)
    fix j x p
    assume "j < length fs" "exported (fs ! j)" "FieldAt v (Suc i + j) = Some x"
    then show "(diffValue fmtV x x (ftype (fs ! j)) p = Inr []) = D (fs ! j) x"
      using Cons.prems [of "Suc j" x p] by simp
  qed
  have split: "(\<forall>j < length (f # fs). P j) = (P 0 \<and> (\<forall>j < length fs. P (Suc j)))" for P
    by (auto simp: less_Suc_eq_0_disj)
  show ?case
  proof (cases "exported f")
    case False
    with tl show ?thesis unfolding split by (simp cong: option.case_cong)
  next
    case True
    show ?thesis
    proof (cases "FieldAt v i")
      case None
      with True show ?thesis unfolding split by (simp cong: option.case_cong)
    next
      case (Some x)
      have hd: "(diffValue fmtV x x (ftype f) p = Inr []) = D f x" for p
        using Cons.prems [of 0 x p] True Some by simp
      show ?thesis
      proof (cases "diffValue fmtV x x (ftype f) (path @ ''.'' @ fname f)")
        case (Inl e)
        with hd [of "path @ ''.'' @ fname f"] True Some show ?thesis
          unfolding split by (simp cong: option.case_cong)
      next
        case (Inr d)
        with hd [of "path @ ''.'' @ fname f"] True Some tl show ?thesis
          unfolding split by (auto cong: option.case_cong)
      qed
    qed
  qed
qed

lemma diffValue_self:
  "(diffValue fmtV v v t p = Inr []) = diffable t v"
proof (induction t v arbitrary: p rule: diffable.induct)
  case (1 k v)
  then show ?case by (cases v) auto
next
  case (2 n t v)
  show ?case
  proof (cases v)
    case (Seq vs)
    have "(diffArrayOrSlice_elems fmtV vs vs t p 0 [] = Inr [])
        = ([] = ([]::chunk list) \<and> (\<forall>x \<in> set vs. diffable t x))"
      by (rule elems_self) (use 2 Seq in blast)
    with Seq show ?thesis by simp
  qed simp_all
next
  case (3 t v)
  show ?case
  proof (cases v)
    case (Seq vs)
    have "(diffArrayOrSlice_elems fmtV vs vs t p 0 [] = Inr [])
        = ([] = ([]::chunk list) \<and> (\<forall>x \<in> set vs. diffable t x))"
      by (rule elems_self) (use 3 Seq in blast)
    with Seq show ?thesis by simp
  qed simp_all
next
  case (7 fs v)
  have "(diffStruct_fields fmtV v v fs 0 p [] = Inr [])
     = ([] = ([]::chunk list) \<and> (\<forall>j < length fs. exported (fs ! j) \<longrightarrow>
          (case FieldAt v (0 + j) of Some x \<Rightarrow> diffable (ftype (fs ! j)) x | None \<Rightarrow> False)))"
    by (rule fields_self) (use 7 in simp)
  then show ?case by auto
next
  case (8 kt t v)
  show ?case
  proof (cases v)
    case (Mapping es)
    have A: "(diffMap_keysA fmtV es es (map fst es) kt t p c = Inr [])
       = (c = [] \<and> (\<forall>k \<in> set (map fst es). MapIndex es k \<noteq> Zero \<and> diffable t (MapIndex es k)))"
      for c
      by (rule keysA_self) (use 8 Mapping in blast)
    show ?thesis
    proof (cases "diffMap_keysA fmtV es es (map fst es) kt t p []")
      case (Inl e)
      with A [of "[]"] Mapping show ?thesis by simp
    next
      case (Inr d)
      show ?thesis
      proof (cases "diffMap_keysB fmtV es es (map fst es) kt p d")
        case (Inl e)
        have "\<not> (d = [] \<and> (\<forall>k \<in> set (map fst es). MapIndex es k \<noteq> Zero))"
          using keysB_self [of fmtV es "map fst es" kt p d] Inl by simp
        then have "\<not> (diffMap_keysA fmtV es es (map fst es) kt t p [] = Inr [])"
          using Inr A [of "[]"] by auto
        with Inl Inr Mapping A [of "[]"] show ?thesis by simp
      next
        case R: (Inr r)
        have r: "(r = []) = (d = [] \<and> (\<forall>k \<in> set (map fst es). MapIndex es k \<noteq> Zero))"
          using keysB_self [of fmtV es "map fst es" kt p d] R by simp
        have "(diffMap fmtV v v kt t p = Inr []) = (r = [])"
          using Mapping Inr R by (simp add: sort_chunks_Nil)
        also have "\<dots> = (d = [] \<and> (\<forall>k \<in> set (map fst es). MapIndex es k \<noteq> Zero))"
          by (rule r)
        also have "\<dots> = (\<forall>k \<in> set (map fst es). MapIndex es k \<noteq> Zero \<and> diffable t (MapIndex es k))"
          using A [of "[]"] Inr by auto
        finally show ?thesis using Mapping by simp
      qed
    qed
  qed simp_all
qed simp_all

text \<open>
  C2, as amended. \<open>Diff v v\<close> returns the empty chunk list and no error for every
  value \<open>v\<close> other than the nil interface in which the comparison visits no part of interface or func type, no ground value
  and no map key that is not \<^verbatim>\<open>==\<close> to itself (a NaN), and no nil pointer other than
  one that leads, through pointers only, to a struct with no exported field; and it
  does so for no other value; on the nil interface it panics. Values are finite here, so the statement is about values
  without a cycle.
\<close>

theorem Diff_same:
  "(Diff fmtV (Some (t, v)) (Some (t, v)) = Inr []) = diffable t v
   \<and> Diff fmtV None None = Inl ReflectPanic"
  by (simp add: Diff_def diffValue_self TypeOf_def)

theorem Diff_same_witness:
  "\<forall>fmtV.
     diffable
       (Slice (Struct [StructField ''ID'' True (Named ''ServiceID'' (Ground KString)),
                       StructField ''Tags'' True (Map (Ground KString) (Ptr (Ground KInt))),
                       StructField ''Load'' True (Ground KFloat),
                       StructField ''hook'' False Func,
                       StructField ''Mark'' True (Ptr (Struct []))]))
       (Seq [Rec [G (GString ''a''), Mapping [(GString ''k'', Pointer (Some (G (GInt 1))))],
                  G (GFloat (Num 1)), Opaque, Pointer None]])
     \<and> Diff fmtV
         (Some (Slice (Struct [StructField ''ID'' True (Named ''ServiceID'' (Ground KString)),
                       StructField ''Tags'' True (Map (Ground KString) (Ptr (Ground KInt))),
                       StructField ''Load'' True (Ground KFloat),
                       StructField ''hook'' False Func,
                       StructField ''Mark'' True (Ptr (Struct []))]),
                Seq [Rec [G (GString ''a''), Mapping [(GString ''k'', Pointer (Some (G (GInt 1))))],
                  G (GFloat (Num 1)), Opaque, Pointer None]]))
         (Some (Slice (Struct [StructField ''ID'' True (Named ''ServiceID'' (Ground KString)),
                       StructField ''Tags'' True (Map (Ground KString) (Ptr (Ground KInt))),
                       StructField ''Load'' True (Ground KFloat),
                       StructField ''hook'' False Func,
                       StructField ''Mark'' True (Ptr (Struct []))]),
                Seq [Rec [G (GString ''a''), Mapping [(GString ''k'', Pointer (Some (G (GInt 1))))],
                  G (GFloat (Num 1)), Opaque, Pointer None]]))
         = Inr []"
proof
  fix fmtV :: "gotype \<Rightarrow> ground \<Rightarrow> string"
  let ?t = "Slice (Struct [StructField ''ID'' True (Named ''ServiceID'' (Ground KString)),
                       StructField ''Tags'' True (Map (Ground KString) (Ptr (Ground KInt))),
                       StructField ''Load'' True (Ground KFloat),
                       StructField ''hook'' False Func,
                       StructField ''Mark'' True (Ptr (Struct []))])"
  let ?v = "Seq [Rec [G (GString ''a''), Mapping [(GString ''k'', Pointer (Some (G (GInt 1))))],
                  G (GFloat (Num 1)), Opaque, Pointer None]]"
  have up: "[0 ..< 5] = [0, 1, 2, 3, 4]"
    by (simp add: upt_rec)
  have d: "diffable ?t ?v"
    by (simp add: up FieldAt_def MapIndex_def Indirect_def)
  from d Diff_same [of fmtV ?t ?v] show "diffable ?t ?v \<and> Diff fmtV (Some (?t, ?v)) (Some (?t, ?v)) = Inr []"
    by simp
qed

text \<open>
  The claim as stated fails on a nil pointer, on NaN and on nil. For a nil pointer to a map,
  \<^verbatim>\<open>reflect.Indirect\<close> yields the zero Value and the kind check of \<^verbatim>\<open>diffMap\<close> answers
  "both values must be maps"; for a nil pointer to an integer, \<^verbatim>\<open>Interface\<close> panics on
  the zero Value; NaN differs from itself, so that a chunk is reported; and the type of
  the nil interface is the nil type, on which \<^verbatim>\<open>Kind\<close> panics.
\<close>

theorem Diff_same_counterexample:
  "\<forall>fmtV.
     Diff fmtV (Some (Ptr (Map (Ground KString) (Ground KInt)), Pointer None))
        (Some (Ptr (Map (Ground KString) (Ground KInt)), Pointer None)) = Inl ErrBothMaps
     \<and> Diff fmtV (Some (Ptr (Ground KInt), Pointer None)) (Some (Ptr (Ground KInt), Pointer None))
         = Inl ReflectPanic
     \<and> Diff fmtV (Some (Ground KFloat, G (GFloat NaN))) (Some (Ground KFloat, G (GFloat NaN)))
         = Inr [\<lparr>Deleted = [G (GFloat NaN)], Added = [G (GFloat NaN)], Path = ''''\<rparr>]
     \<and> Diff fmtV None None = Inl ReflectPanic"
  by (simp add: Diff_def Indirect_def Changed_def TypeOf_def)

subsection \<open>Sequences\<close>

lemma diffArrayOrSlice_seq:
  "seq_elem st = Some t \<Longrightarrow>
   diffArrayOrSlice fmtV (Seq as) (Seq bs) st path = diffArrayOrSlice_elems fmtV as bs t path 0 []"
  by (induction st rule: seq_elem.induct) simp_all

lemma diffValue_seq:
  "seq_elem st = Some t \<Longrightarrow> diffValue fmtV a b st path = diffArrayOrSlice fmtV a b st path"
  by (induction st rule: seq_elem.induct) simp_all

lemma elems_ok:
  "(\<And>j. j < min (length as) (length bs) \<Longrightarrow>
      diffValue fmtV (as ! j) (bs ! j) t (index_path path (i + j)) = Inr (d (i + j))) \<Longrightarrow>
   diffArrayOrSlice_elems fmtV as bs t path i changed =
     Inr (changed @ concat (map d [i ..< i + min (length as) (length bs)]) @
       (if length bs < length as
        then [\<lparr>Deleted = drop (length bs) as, Added = [],
               Path = index_path path (i + length bs)\<rparr>]
        else if length as < length bs
        then [\<lparr>Deleted = [], Added = drop (length as) bs,
               Path = index_path path (i + length as)\<rparr>]
        else []))"
proof (induction as arbitrary: bs i changed)
  case Nil
  then show ?case by (cases bs) auto
next
  case (Cons x as)
  show ?case
  proof (cases bs)
    case Nil
    then show ?thesis by simp
  next
    case (Cons y bs')
    have head: "diffValue fmtV x y t (index_path path i) = Inr (d i)"
      using Cons.prems [of 0] Cons by simp
    have tail: "diffArrayOrSlice_elems fmtV as bs' t path (Suc i) (changed @ d i) =
      Inr ((changed @ d i) @ concat (map d [Suc i ..< Suc i + min (length as) (length bs')]) @
       (if length bs' < length as
        then [\<lparr>Deleted = drop (length bs') as, Added = [],
               Path = index_path path (Suc i + length bs')\<rparr>]
        else if length as < length bs'
        then [\<lparr>Deleted = [], Added = drop (length as) bs',
               Path = index_path path (Suc i + length as)\<rparr>]
        else []))"
    proof (rule Cons.IH)
      fix j
      assume "j < min (length as) (length bs')"
      then show "diffValue fmtV (as ! j) (bs' ! j) t (index_path path (Suc i + j))
          = Inr (d (Suc i + j))"
        using Cons.prems [of "Suc j"] Cons by simp
    qed
    have "min (length (x # as)) (length bs) = Suc (min (length as) (length bs'))"
      using Cons by simp
    moreover have "[i ..< i + Suc m] = i # [Suc i ..< Suc i + m]" for m
      by (subst upt_rec) simp
    ultimately have up: "[i ..< i + min (length (x # as)) (length bs)] =
        i # [Suc i ..< Suc i + min (length as) (length bs')]"
      by simp
    show ?thesis
      unfolding up using Cons head tail by simp
  qed
qed

lemma elems_err:
  "j < min (length as) (length bs) \<Longrightarrow>
   diffValue fmtV (as ! j) (bs ! j) t (index_path path (i + j)) = Inl e \<Longrightarrow>
   (\<And>k. k < j \<Longrightarrow> \<exists>c. diffValue fmtV (as ! k) (bs ! k) t (index_path path (i + k)) = Inr c) \<Longrightarrow>
   diffArrayOrSlice_elems fmtV as bs t path i changed = Inl e"
proof (induction as arbitrary: bs i j changed)
  case Nil
  then show ?case by simp
next
  case (Cons x as)
  then obtain y bs' where bs: "bs = y # bs'" by (cases bs) auto
  show ?case
  proof (cases j)
    case 0
    with Cons.prems bs show ?thesis by simp
  next
    case (Suc j')
    from Cons.prems(3) [of 0] Suc bs obtain c
      where c: "diffValue fmtV x y t (index_path path i) = Inr c"
      by auto
    have "diffArrayOrSlice_elems fmtV as bs' t path (Suc i) (changed @ c) = Inl e"
    proof (rule Cons.IH [of j'])
      show "j' < min (length as) (length bs')" using Cons.prems(1) Suc bs by simp
      show "diffValue fmtV (as ! j') (bs' ! j') t (index_path path (Suc i + j')) = Inl e"
        using Cons.prems(2) Suc bs by simp
      fix k assume "k < j'"
      then show "\<exists>c. diffValue fmtV (as ! k) (bs' ! k) t (index_path path (Suc i + k)) = Inr c"
        using Cons.prems(3) [of "Suc k"] Suc bs by simp
    qed
    with c bs show ?thesis by simp
  qed
qed

text \<open>
  C4. Two sequences \<open>as\<close> and \<open>bs\<close> of a type \<open>st\<close> whose kind is array or slice, with
  element type \<open>t\<close>, compared by \<open>diffValue\<close> at any path, and by \<open>Diff\<close>, which is
  \<open>diffValue\<close> at the empty path: the elements are compared by position up to the shorter
  length, each by \<open>diffValue\<close> at the path extended by its index, and the chunks are
  concatenated in that order (\<open>d j\<close> is what position \<open>j\<close> yields); when the lengths
  differ, exactly one chunk follows, at the index of the shorter length, holding all
  surplus elements as deletions (left longer) or additions (right longer). The first
  position whose comparison fails fails the whole. The two examples of the
  specification are the last two conjuncts.
\<close>

theorem Diff_sequences_positional:
  assumes "seq_elem st = Some t"
  shows
  "((\<forall>j < min (length as) (length bs).
       diffValue fmtV (as ! j) (bs ! j) t (index_path path j) = Inr (d j)) \<longrightarrow>
    diffValue fmtV (Seq as) (Seq bs) st path =
      Inr (concat (map d [0 ..< min (length as) (length bs)]) @
        (if length bs < length as
         then [\<lparr>Deleted = drop (length bs) as, Added = [], Path = index_path path (length bs)\<rparr>]
         else if length as < length bs
         then [\<lparr>Deleted = [], Added = drop (length as) bs, Path = index_path path (length as)\<rparr>]
         else [])))
   \<and> (j < min (length as) (length bs) \<and>
       diffValue fmtV (as ! j) (bs ! j) t (index_path path j) = Inl e \<and>
       (\<forall>k < j. \<exists>c. diffValue fmtV (as ! k) (bs ! k) t (index_path path k) = Inr c) \<longrightarrow>
       diffValue fmtV (Seq as) (Seq bs) st path = Inl e)
   \<and> Diff fmtV (Some (st, Seq as)) (Some (st, Seq bs)) = diffValue fmtV (Seq as) (Seq bs) st ''''
   \<and> Diff fmtV (Some (Slice (Ground KInt), Seq [G (GInt 1), G (GInt 2), G (GInt 3)]))
           (Some (Slice (Ground KInt), Seq [G (GInt 1), G (GInt 2)]))
       = Inr [\<lparr>Deleted = [G (GInt 3)], Added = [], Path = ''[2]''\<rparr>]
   \<and> Diff fmtV (Some (Slice (Ground KInt), Seq [G (GInt 1), G (GInt 2)]))
           (Some (Slice (Ground KInt), Seq [G (GInt 1), G (GInt 2), G (GInt 3)]))
       = Inr [\<lparr>Deleted = [], Added = [G (GInt 3)], Path = ''[2]''\<rparr>]"
proof (intro conjI impI)
  have unfold: "diffValue fmtV (Seq as) (Seq bs) st path
      = diffArrayOrSlice_elems fmtV as bs t path 0 []"
    using assms by (simp add: diffValue_seq diffArrayOrSlice_seq)
  {
    assume "\<forall>j < min (length as) (length bs).
         diffValue fmtV (as ! j) (bs ! j) t (index_path path j) = Inr (d j)"
    then show "diffValue fmtV (Seq as) (Seq bs) st path =
        Inr (concat (map d [0 ..< min (length as) (length bs)]) @
          (if length bs < length as
           then [\<lparr>Deleted = drop (length bs) as, Added = [], Path = index_path path (length bs)\<rparr>]
           else if length as < length bs
           then [\<lparr>Deleted = [], Added = drop (length as) bs, Path = index_path path (length as)\<rparr>]
           else []))"
      unfolding unfold using elems_ok [of as bs fmtV t path 0 d "[]"] by simp
  }
  {
    assume "j < min (length as) (length bs) \<and>
         diffValue fmtV (as ! j) (bs ! j) t (index_path path j) = Inl e \<and>
         (\<forall>k < j. \<exists>c. diffValue fmtV (as ! k) (bs ! k) t (index_path path k) = Inr c)"
    then show "diffValue fmtV (Seq as) (Seq bs) st path = Inl e"
      unfolding unfold using elems_err [of j as bs fmtV t path 0 e "[]"] by simp
  }
  show "Diff fmtV (Some (st, Seq as)) (Some (st, Seq bs)) = diffValue fmtV (Seq as) (Seq bs) st ''''"
    by (simp add: Diff_def TypeOf_def)
  show "Diff fmtV (Some (Slice (Ground KInt), Seq [G (GInt 1), G (GInt 2), G (GInt 3)]))
           (Some (Slice (Ground KInt), Seq [G (GInt 1), G (GInt 2)]))
       = Inr [\<lparr>Deleted = [G (GInt 3)], Added = [], Path = ''[2]''\<rparr>]"
    by (simp add: Diff_def TypeOf_def index_path_def)
  show "Diff fmtV (Some (Slice (Ground KInt), Seq [G (GInt 1), G (GInt 2)]))
           (Some (Slice (Ground KInt), Seq [G (GInt 1), G (GInt 2), G (GInt 3)]))
       = Inr [\<lparr>Deleted = [], Added = [G (GInt 3)], Path = ''[2]''\<rparr>]"
    by (simp add: Diff_def TypeOf_def index_path_def)
qed

theorem Diff_sequences_positional_witness:
  "\<forall>fmtV.
     seq_elem (Slice (Ground KInt)) = Some (Ground KInt)
     \<and> diffValue fmtV (G (GInt 1)) (G (GInt 1)) (Ground KInt) (index_path '''' 0) = Inr []
     \<and> diffValue fmtV (G (GInt 2)) (G (GInt 5)) (Ground KInt) (index_path '''' 1)
         = Inr [Changed (G (GInt 2)) (G (GInt 5)) ''[1]'']
     \<and> Diff fmtV (Some (Slice (Ground KInt), Seq [G (GInt 1), G (GInt 2), G (GInt 3), G (GInt 4)]))
          (Some (Slice (Ground KInt), Seq [G (GInt 1), G (GInt 5)]))
         = Inr [Changed (G (GInt 2)) (G (GInt 5)) ''[1]'',
                \<lparr>Deleted = [G (GInt 3), G (GInt 4)], Added = [], Path = ''[2]''\<rparr>]
     \<and> seq_elem (Named ''Pair'' (Array 2 (Ground KInt))) = Some (Ground KInt)
     \<and> Diff fmtV (Some (Named ''Pair'' (Array 2 (Ground KInt)), Seq [G (GInt 1), G (GInt 2)]))
          (Some (Named ''Pair'' (Array 2 (Ground KInt)), Seq [G (GInt 1), G (GInt 5)]))
         = Inr [Changed (G (GInt 2)) (G (GInt 5)) ''[1]'']
     \<and> seq_elem (Slice Interface) = Some Interface
     \<and> diffValue fmtV Opaque Opaque Interface (index_path '''' 0) = Inl ErrInterfaceDiff
     \<and> Diff fmtV (Some (Slice Interface, Seq [Opaque])) (Some (Slice Interface, Seq [Opaque, Opaque]))
         = Inl ErrInterfaceDiff"
proof
  fix fmtV :: "gotype \<Rightarrow> ground \<Rightarrow> string"
  let ?as = "[G (GInt 1), G (GInt 2), G (GInt 3), G (GInt 4)]"
  let ?bs = "[G (GInt 1), G (GInt 5)]"
  let ?cs = "[G (GInt 1), G (GInt 2)]"
  let ?d = "\<lambda>j::nat. if j = 1 then [Changed (G (GInt 2)) (G (GInt 5)) ''[1]''] else []"
  have s1: "seq_elem (Slice (Ground KInt)) = Some (Ground KInt)" by simp
  have s2: "seq_elem (Named ''Pair'' (Array 2 (Ground KInt))) = Some (Ground KInt)" by simp
  have s3: "seq_elem (Slice Interface) = Some Interface" by simp
  have e0: "diffValue fmtV (G (GInt 1)) (G (GInt 1)) (Ground KInt) (index_path '''' 0) = Inr []"
    by simp
  have e1: "diffValue fmtV (G (GInt 2)) (G (GInt 5)) (Ground KInt) (index_path '''' 1)
      = Inr [Changed (G (GInt 2)) (G (GInt 5)) ''[1]'']"
    by (simp add: index_path_def)
  have all: "\<forall>j < min (length ?as) (length ?bs).
      diffValue fmtV (?as ! j) (?bs ! j) (Ground KInt) (index_path '''' j) = Inr (?d j)"
    using e0 e1 by (simp add: less_Suc_eq numeral_2_eq_2)
  have all2: "\<forall>j < min (length ?cs) (length ?bs).
      diffValue fmtV (?cs ! j) (?bs ! j) (Ground KInt) (index_path '''' j) = Inr (?d j)"
    using e0 e1 by (simp add: less_Suc_eq numeral_2_eq_2)
  have upt: "[0 ..< 2] = [0, Suc 0]"
    by (simp add: numeral_2_eq_2)
  have ok: "Diff fmtV (Some (Slice (Ground KInt), Seq ?as)) (Some (Slice (Ground KInt), Seq ?bs))
      = Inr [Changed (G (GInt 2)) (G (GInt 5)) ''[1]'',
             \<lparr>Deleted = [G (GInt 3), G (GInt 4)], Added = [], Path = ''[2]''\<rparr>]"
    using Diff_sequences_positional [OF s1, of ?as ?bs fmtV "''''" ?d] all
    by (simp add: upt index_path_def)
  have arr: "Diff fmtV (Some (Named ''Pair'' (Array 2 (Ground KInt)), Seq ?cs))
          (Some (Named ''Pair'' (Array 2 (Ground KInt)), Seq ?bs))
      = Inr [Changed (G (GInt 2)) (G (GInt 5)) ''[1]'']"
    using Diff_sequences_positional [OF s2, of ?cs ?bs fmtV "''''" ?d] all2
    by (simp add: upt)
  have f0: "diffValue fmtV Opaque Opaque Interface (index_path '''' 0) = Inl ErrInterfaceDiff"
    by simp
  have bad: "Diff fmtV (Some (Slice Interface, Seq [Opaque])) (Some (Slice Interface, Seq [Opaque, Opaque]))
      = Inl ErrInterfaceDiff"
    using Diff_sequences_positional [OF s3, of "[Opaque]" "[Opaque, Opaque]" fmtV "''''" ?d 0
        ErrInterfaceDiff] f0
    by simp
  from s1 e0 e1 ok s2 arr s3 f0 bad
  show "seq_elem (Slice (Ground KInt)) = Some (Ground KInt)
     \<and> diffValue fmtV (G (GInt 1)) (G (GInt 1)) (Ground KInt) (index_path '''' 0) = Inr []
     \<and> diffValue fmtV (G (GInt 2)) (G (GInt 5)) (Ground KInt) (index_path '''' 1)
         = Inr [Changed (G (GInt 2)) (G (GInt 5)) ''[1]'']
     \<and> Diff fmtV (Some (Slice (Ground KInt), Seq ?as)) (Some (Slice (Ground KInt), Seq ?bs))
         = Inr [Changed (G (GInt 2)) (G (GInt 5)) ''[1]'',
                \<lparr>Deleted = [G (GInt 3), G (GInt 4)], Added = [], Path = ''[2]''\<rparr>]
     \<and> seq_elem (Named ''Pair'' (Array 2 (Ground KInt))) = Some (Ground KInt)
     \<and> Diff fmtV (Some (Named ''Pair'' (Array 2 (Ground KInt)), Seq ?cs))
          (Some (Named ''Pair'' (Array 2 (Ground KInt)), Seq ?bs))
         = Inr [Changed (G (GInt 2)) (G (GInt 5)) ''[1]'']
     \<and> seq_elem (Slice Interface) = Some Interface
     \<and> diffValue fmtV Opaque Opaque Interface (index_path '''' 0) = Inl ErrInterfaceDiff
     \<and> Diff fmtV (Some (Slice Interface, Seq [Opaque])) (Some (Slice Interface, Seq [Opaque, Opaque]))
         = Inl ErrInterfaceDiff"
    by blast
qed

subsection \<open>Keyed mappings\<close>

lemma keysA_Inr:
  "diffMap_keysA fmtV a b ks kt t path diffs = Inr r \<Longrightarrow>
   (\<forall>k \<in> set ks. MapIndex b k \<noteq> Zero \<longrightarrow>
      (\<exists>c. diffValue fmtV (MapIndex a k) (MapIndex b k) t (key_path fmtV kt path k) = Inr c))
   \<and> r = diffs @ keysA_chunks fmtV a b kt t path ks"
proof (induction ks arbitrary: diffs)
  case Nil
  then show ?case by (simp add: keysA_chunks_def)
next
  case (Cons k ks)
  show ?case
  proof (cases "MapIndex b k \<noteq> Zero")
    case True
    with Cons.prems obtain c
      where c: "diffValue fmtV (MapIndex a k) (MapIndex b k) t (key_path fmtV kt path k) = Inr c"
        and rest: "diffMap_keysA fmtV a b ks kt t path (diffs @ c) = Inr r"
      by (auto split: sum.splits)
    from Cons.IH [OF rest] True c show ?thesis
      by (auto simp: keysA_chunks_def)
  next
    case False
    with Cons.prems have rest: "diffMap_keysA fmtV a b ks kt t path
        (diffs @ [Removed (MapIndex a k) (key_path fmtV kt path k)]) = Inr r"
      by (auto split: if_splits)
    from Cons.IH [OF rest] False show ?thesis
      by (auto simp: keysA_chunks_def)
  qed
qed

lemma keysB_Inr:
  "diffMap_keysB fmtV a b ks kt path diffs = Inr r \<Longrightarrow>
   r = diffs @ keysB_chunks fmtV a b kt path ks"
proof (induction ks arbitrary: diffs)
  case Nil
  then show ?case by (simp add: keysB_chunks_def)
next
  case (Cons k ks)
  show ?case
  proof (cases "MapIndex a k = Zero")
    case True
    with Cons.prems have rest: "diffMap_keysB fmtV a b ks kt path
        (diffs @ [AddedChunk (MapIndex b k) (key_path fmtV kt path k)]) = Inr r"
      by (auto split: if_splits)
    from Cons.IH [OF rest] True show ?thesis
      by (simp add: keysB_chunks_def)
  next
    case False
    with Cons.prems have rest: "diffMap_keysB fmtV a b ks kt path diffs = Inr r"
      by simp
    from Cons.IH [OF rest] False show ?thesis
      by (simp add: keysB_chunks_def)
  qed
qed

text \<open>
  What \<open>diffValue\<close>, and so \<open>Diff\<close>, returns for two maps \<open>ea\<close> and \<open>eb\<close> when it
  succeeds with the chunk list \<open>r\<close>: \<open>r\<close> is sorted lexically by path, and it holds
  exactly these chunks: for a key of the left map that the right map has, the chunks
  \<open>d k\<close> of the recursive \<open>diffValue\<close> on the two values at the path extended by the key;
  for a key of the left map that the right map does not have, one pure deletion of its
  value; and for a key of the right map that the left map does not have, one pure
  addition of its value.
\<close>

lemma diffValue_map_sorted:
  assumes "diffValue fmtV (Mapping ea) (Mapping eb) (Map kt t) path = Inr r"
  shows "sorted (map Path r)
    \<and> (\<exists>d. (\<forall>k \<in> set (map fst ea). MapIndex eb k \<noteq> Zero \<longrightarrow>
               diffValue fmtV (MapIndex ea k) (MapIndex eb k) t (key_path fmtV kt path k)
                 = Inr (d k))
          \<and> mset r = mset
              (concat (map (\<lambda>k. if MapIndex eb k \<noteq> Zero then d k
                                else [Removed (MapIndex ea k) (key_path fmtV kt path k)])
                         (map fst ea))
               @ map (\<lambda>k. AddedChunk (MapIndex eb k) (key_path fmtV kt path k))
                   (filter (\<lambda>k. MapIndex ea k = Zero) (map fst eb))))
    \<and> Diff fmtV (Some (Map kt t, Mapping ea)) (Some (Map kt t, Mapping eb))
        = diffValue fmtV (Mapping ea) (Mapping eb) (Map kt t) ''''"
proof (intro conjI)
  from assms obtain diffs allDiffs
    where A: "diffMap_keysA fmtV ea eb (map fst ea) kt t path [] = Inr diffs"
      and B: "diffMap_keysB fmtV ea eb (map fst eb) kt path diffs = Inr allDiffs"
      and r: "r = sort_chunks allDiffs"
    by (auto split: sum.splits)
  show "sorted (map Path r)" by (simp add: r sort_chunks_def)
  define d where "d k = projr (diffValue fmtV (MapIndex ea k) (MapIndex eb k) t
      (key_path fmtV kt path k))" for k
  from keysA_Inr [OF A]
  have ok: "\<forall>k \<in> set (map fst ea). MapIndex eb k \<noteq> Zero \<longrightarrow>
      (\<exists>c. diffValue fmtV (MapIndex ea k) (MapIndex eb k) t (key_path fmtV kt path k) = Inr c)"
    and da: "diffs = keysA_chunks fmtV ea eb kt t path (map fst ea)"
    by simp_all
  from keysB_Inr [OF B]
  have db: "allDiffs = diffs @ keysB_chunks fmtV ea eb kt path (map fst eb)" .
  have rec: "\<forall>k \<in> set (map fst ea). MapIndex eb k \<noteq> Zero \<longrightarrow>
      diffValue fmtV (MapIndex ea k) (MapIndex eb k) t (key_path fmtV kt path k) = Inr (d k)"
    using ok by (auto simp: d_def)
  have "mset r = mset
              (concat (map (\<lambda>k. if MapIndex eb k \<noteq> Zero then d k
                                else [Removed (MapIndex ea k) (key_path fmtV kt path k)])
                         (map fst ea))
               @ map (\<lambda>k. AddedChunk (MapIndex eb k) (key_path fmtV kt path k))
                   (filter (\<lambda>k. MapIndex ea k = Zero) (map fst eb)))"
    unfolding r sort_chunks_def mset_sort db da keysA_chunks_def keysB_chunks_def d_def ..
  with rec show "\<exists>d. (\<forall>k \<in> set (map fst ea). MapIndex eb k \<noteq> Zero \<longrightarrow>
               diffValue fmtV (MapIndex ea k) (MapIndex eb k) t (key_path fmtV kt path k)
                 = Inr (d k))
          \<and> mset r = mset
              (concat (map (\<lambda>k. if MapIndex eb k \<noteq> Zero then d k
                                else [Removed (MapIndex ea k) (key_path fmtV kt path k)])
                         (map fst ea))
               @ map (\<lambda>k. AddedChunk (MapIndex eb k) (key_path fmtV kt path k))
                   (filter (\<lambda>k. MapIndex ea k = Zero) (map fst eb)))"
    by blast
  show "Diff fmtV (Some (Map kt t, Mapping ea)) (Some (Map kt t, Mapping eb))
        = diffValue fmtV (Mapping ea) (Mapping eb) (Map kt t) ''''"
    by (simp add: Diff_def TypeOf_def)
qed

lemma diffValue_map_sorted_example:
  "\<forall>fmtV.
     Diff (fmt_v fmtV)
        (Some (Map (Ground KString) (Ground KInt),
               Mapping [(GString ''b'', G (GInt 2)), (GString ''a'', G (GInt 1))]))
        (Some (Map (Ground KString) (Ground KInt),
               Mapping [(GString ''c'', G (GInt 4)), (GString ''b'', G (GInt 3))]))
       = Inr [Removed (G (GInt 1)) ''[a]'', Changed (G (GInt 2)) (G (GInt 3)) ''[b]'',
              AddedChunk (G (GInt 4)) ''[c]'']
     \<and> sorted (map Path [Removed (G (GInt 1)) ''[a]'', Changed (G (GInt 2)) (G (GInt 3)) ''[b]'',
                          AddedChunk (G (GInt 4)) ''[c]''])"
proof
  fix fmtV :: "gotype \<Rightarrow> ground \<Rightarrow> string"
  let ?ea = "[(GString ''b'', G (GInt 2)), (GString ''a'', G (GInt 1))]"
  let ?eb = "[(GString ''c'', G (GInt 4)), (GString ''b'', G (GInt 3))]"
  let ?r = "[Removed (G (GInt 1)) ''[a]'', Changed (G (GInt 2)) (G (GInt 3)) ''[b]'',
             AddedChunk (G (GInt 4)) ''[c]'']"
  have v: "diffValue (fmt_v fmtV) (Mapping ?ea) (Mapping ?eb) (Map (Ground KString) (Ground KInt)) ''''
      = Inr ?r"
    by (simp add: MapIndex_def key_path_def fmt_v_def sort_chunks_def Removed_def
        Changed_def AddedChunk_def)
  note main = diffValue_map_sorted [OF v]
  from main have s: "sorted (map Path ?r)" by blast
  from main v have "Diff (fmt_v fmtV) (Some (Map (Ground KString) (Ground KInt), Mapping ?ea))
      (Some (Map (Ground KString) (Ground KInt), Mapping ?eb)) = Inr ?r"
    by simp
  with s show "Diff (fmt_v fmtV) (Some (Map (Ground KString) (Ground KInt), Mapping ?ea))
      (Some (Map (Ground KString) (Ground KInt), Mapping ?eb)) = Inr ?r \<and> sorted (map Path ?r)"
    by blast
qed

text \<open>
  C5. Per the claim, and per the comment on \<^verbatim>\<open>sorted\<close> (the final sort is there "to
  return the differences for a map in a stable order"), repeated calls yield the chunks
  in the same order whatever the iteration order of the maps. The source sorts by path
  alone, so two chunks that share a path come out in the order in which the keys were
  visited, which Go leaves open. The theorem runs \<open>Diff\<close> on the maps
  \<^verbatim>\<open>{"x": {"y][z": 1}, "x][y": {"z": 1}}\<close> and \<^verbatim>\<open>{"x": {"y][z": 2}, "x][y": {"z": 3}}\<close>, of
  type \<^verbatim>\<open>map[string]map[string]int\<close>, once for each order in which \<^verbatim>\<open>MapKeys\<close> may
  return the two keys of the left map: the result holds the same two chunks at the path
  \<^verbatim>\<open>[x][y][z]\<close>, in one order and in the other. Where the paths differ the sort decides:
  the maps \<^verbatim>\<open>{"a": 1, "b": 2}\<close> and \<^verbatim>\<open>{"b": 3, "c": 4}\<close> yield the deletion at \<^verbatim>\<open>[a]\<close>, the
  change at \<^verbatim>\<open>[b]\<close> and the addition at \<^verbatim>\<open>[c]\<close> in this order, in whichever order the keys
  are visited.
\<close>

theorem Diff_map_equal_paths_order:
  "\<forall>fmtV.
   Diff (fmt_v fmtV)
     (Some (Map (Ground KString) (Map (Ground KString) (Ground KInt)),
            Mapping [(GString ''x'', Mapping [(GString ''y][z'', G (GInt 1))]),
                     (GString ''x][y'', Mapping [(GString ''z'', G (GInt 1))])]))
     (Some (Map (Ground KString) (Map (Ground KString) (Ground KInt)),
            Mapping [(GString ''x'', Mapping [(GString ''y][z'', G (GInt 2))]),
                     (GString ''x][y'', Mapping [(GString ''z'', G (GInt 3))])]))
     = Inr [Changed (G (GInt 1)) (G (GInt 2)) ''[x][y][z]'',
            Changed (G (GInt 1)) (G (GInt 3)) ''[x][y][z]'']
   \<and> Diff (fmt_v fmtV)
     (Some (Map (Ground KString) (Map (Ground KString) (Ground KInt)),
            Mapping [(GString ''x][y'', Mapping [(GString ''z'', G (GInt 1))]),
                     (GString ''x'', Mapping [(GString ''y][z'', G (GInt 1))])]))
     (Some (Map (Ground KString) (Map (Ground KString) (Ground KInt)),
            Mapping [(GString ''x'', Mapping [(GString ''y][z'', G (GInt 2))]),
                     (GString ''x][y'', Mapping [(GString ''z'', G (GInt 3))])]))
     = Inr [Changed (G (GInt 1)) (G (GInt 3)) ''[x][y][z]'',
            Changed (G (GInt 1)) (G (GInt 2)) ''[x][y][z]'']
   \<and> Diff (fmt_v fmtV)
     (Some (Map (Ground KString) (Ground KInt),
            Mapping [(GString ''a'', G (GInt 1)), (GString ''b'', G (GInt 2))]))
     (Some (Map (Ground KString) (Ground KInt),
            Mapping [(GString ''b'', G (GInt 3)), (GString ''c'', G (GInt 4))]))
     = Inr [Removed (G (GInt 1)) ''[a]'', Changed (G (GInt 2)) (G (GInt 3)) ''[b]'',
            AddedChunk (G (GInt 4)) ''[c]'']
   \<and> Diff (fmt_v fmtV)
     (Some (Map (Ground KString) (Ground KInt),
            Mapping [(GString ''b'', G (GInt 2)), (GString ''a'', G (GInt 1))]))
     (Some (Map (Ground KString) (Ground KInt),
            Mapping [(GString ''c'', G (GInt 4)), (GString ''b'', G (GInt 3))]))
     = Inr [Removed (G (GInt 1)) ''[a]'', Changed (G (GInt 2)) (G (GInt 3)) ''[b]'',
            AddedChunk (G (GInt 4)) ''[c]'']"
  by (simp add: Diff_def TypeOf_def MapIndex_def key_path_def fmt_v_def sort_chunks_def
      Changed_def Removed_def AddedChunk_def)

section \<open>Properties of the HTTP transport\<close>

subsection \<open>WriteError\<close>

lemma WriteError_shape:
  "\<exists>contentType status text.
     WriteError negotiate jsonMarshal w r code e =
       w @ [SetHeader ''Content-Type'' contentType, WriteHeader status, Write text]
     \<and> (contentType = ''application/json; charset=utf-8''
          \<or> contentType = ''text/plain; charset=utf-8'')
     \<and> (status = code \<or> status = StatusInternalServerError)"
  by (cases "jsonMarshal e") (simp_all add: WriteError_def Let_def)

lemma WriteError_status:
  "\<exists>contentType text.
     WriteError negotiate jsonMarshal w r code e =
       w @ [SetHeader ''Content-Type'' contentType,
            WriteHeader
              (if Get (ReqHeader r) ''Accept'' \<noteq> ''''
                  \<and> negotiate r [''application/json'', ''text/plain''] = ''application/json''
                  \<and> (\<exists>encodeErr. jsonMarshal e = Inl encodeErr)
               then StatusInternalServerError else code),
            Write text]
     \<and> (contentType = ''application/json; charset=utf-8''
          \<or> contentType = ''text/plain; charset=utf-8'')"
  by (cases "jsonMarshal e") (simp_all add: WriteError_def Let_def)

text \<open>
  C7, as amended. \<open>WriteError\<close> honours content negotiation. When the request has an
  \<^verbatim>\<open>Accept\<close> header and \<open>application/json\<close> is negotiated, the error as \<^verbatim>\<open>json.Marshal\<close>
  encodes it is written as the body with the JSON content type at the given status
  code, provided that it can be encoded; when it cannot, a plain-text report naming the
  encoding error and the original error is written at status 500. When \<open>text/plain\<close> is
  negotiated, the help text of a \<^verbatim>\<open>*flux.BaseError\<close>, or else the error text, is written
  as plain text at the given status code. When there is no \<^verbatim>\<open>Accept\<close> header or neither
  type is negotiated, the error text is written as plain text at the given status
  code. In every branch exactly three calls are made on the writer, in this order: a
  charset-qualified \<^verbatim>\<open>Content-Type\<close> is set, the status code is written (500 in the
  branch of the encoding failure and the given code in every other), the body is
  written.
\<close>

theorem WriteError_negotiation:
  "(Get (ReqHeader r) ''Accept'' \<noteq> ''''
      \<and> negotiate r [''application/json'', ''text/plain''] = ''application/json''
      \<and> jsonMarshal e = Inr body \<longrightarrow>
      WriteError negotiate jsonMarshal w r code e =
        w @ [SetHeader ''Content-Type'' ''application/json; charset=utf-8'',
             WriteHeader code, Write body])
   \<and> (Get (ReqHeader r) ''Accept'' \<noteq> ''''
      \<and> negotiate r [''application/json'', ''text/plain''] = ''application/json''
      \<and> jsonMarshal e = Inl encodeErr \<longrightarrow>
      WriteError negotiate jsonMarshal w r code e =
        w @ [SetHeader ''Content-Type'' ''text/plain; charset=utf-8'',
             WriteHeader StatusInternalServerError,
             Write (''Error encoding error response: '' @ ErrorText encodeErr
                    @ [CHR 0x0A, CHR 0x0A] @ ''Original error: '' @ ErrorText e)])
   \<and> (Get (ReqHeader r) ''Accept'' \<noteq> ''''
      \<and> negotiate r [''application/json'', ''text/plain''] = ''text/plain'' \<longrightarrow>
      WriteError negotiate jsonMarshal w r code e =
        w @ [SetHeader ''Content-Type'' ''text/plain; charset=utf-8'',
             WriteHeader code,
             Write (case e of BaseErrorPtr b \<Rightarrow> Help b | _ \<Rightarrow> ErrorText e)])
   \<and> (Get (ReqHeader r) ''Accept'' = ''''
      \<or> (negotiate r [''application/json'', ''text/plain''] \<noteq> ''application/json''
          \<and> negotiate r [''application/json'', ''text/plain''] \<noteq> ''text/plain'') \<longrightarrow>
      WriteError negotiate jsonMarshal w r code e =
        w @ [SetHeader ''Content-Type'' ''text/plain; charset=utf-8'',
             WriteHeader code, Write (ErrorText e)])
   \<and> (\<exists>contentType text.
        WriteError negotiate jsonMarshal w r code e =
          w @ [SetHeader ''Content-Type'' contentType,
               WriteHeader
                 (if Get (ReqHeader r) ''Accept'' \<noteq> ''''
                     \<and> negotiate r [''application/json'', ''text/plain''] = ''application/json''
                     \<and> (\<exists>x. jsonMarshal e = Inl x)
                  then StatusInternalServerError else code),
               Write text]
        \<and> (contentType = ''application/json; charset=utf-8''
             \<or> contentType = ''text/plain; charset=utf-8''))"
proof (intro conjI impI)
  show "\<exists>contentType text.
        WriteError negotiate jsonMarshal w r code e =
          w @ [SetHeader ''Content-Type'' contentType,
               WriteHeader
                 (if Get (ReqHeader r) ''Accept'' \<noteq> ''''
                     \<and> negotiate r [''application/json'', ''text/plain''] = ''application/json''
                     \<and> (\<exists>x. jsonMarshal e = Inl x)
                  then StatusInternalServerError else code),
               Write text]
        \<and> (contentType = ''application/json; charset=utf-8''
             \<or> contentType = ''text/plain; charset=utf-8'')"
    by (rule WriteError_status)
qed (auto simp: WriteError_def Let_def)

theorem WriteError_negotiation_witness:
  "Get (ReqHeader accept_json) ''Accept'' \<noteq> ''''
   \<and> sample_negotiate accept_json [''application/json'', ''text/plain''] = ''application/json''
   \<and> sample_marshal (BaseErrorPtr sample_error) = Inr sample_body
   \<and> WriteError sample_negotiate sample_marshal [] accept_json StatusGone (BaseErrorPtr sample_error)
       = [SetHeader ''Content-Type'' ''application/json; charset=utf-8'',
          WriteHeader StatusGone, Write sample_body]
   \<and> Get (ReqHeader accept_text) ''Accept'' \<noteq> ''''
   \<and> sample_negotiate accept_text [''application/json'', ''text/plain''] = ''text/plain''
   \<and> WriteError sample_negotiate sample_marshal [] accept_text StatusGone (BaseErrorPtr sample_error)
       = [SetHeader ''Content-Type'' ''text/plain; charset=utf-8'',
          WriteHeader StatusGone, Write ''check the service name'']
   \<and> sample_marshal sample_unencodable = Inl (Plain ''json: unsupported type: chan int'')
   \<and> WriteError sample_negotiate sample_marshal [] accept_json StatusNotFound sample_unencodable
       = [SetHeader ''Content-Type'' ''text/plain; charset=utf-8'',
          WriteHeader StatusInternalServerError,
          Write (''Error encoding error response: json: unsupported type: chan int''
                 @ [CHR 0x0A, CHR 0x0A] @ ''Original error: stream closed'')]
   \<and> Get (ReqHeader no_accept) ''Accept'' = ''''
   \<and> WriteError sample_negotiate sample_marshal [] no_accept StatusNotFound (Plain ''boom'')
       = [SetHeader ''Content-Type'' ''text/plain; charset=utf-8'',
          WriteHeader StatusNotFound, Write ''boom'']"
proof -
  have a: "Get (ReqHeader accept_json) ''Accept'' \<noteq> ''''"
    by (simp add: accept_json_def Get_def)
  have n: "sample_negotiate accept_json [''application/json'', ''text/plain''] = ''application/json''"
    by (simp add: sample_negotiate_def accept_json_def Get_def)
  have m: "sample_marshal (BaseErrorPtr sample_error) = Inr sample_body"
    by (simp add: sample_marshal_def)
  have a': "Get (ReqHeader accept_text) ''Accept'' \<noteq> ''''"
    by (simp add: accept_text_def Get_def)
  have n': "sample_negotiate accept_text [''application/json'', ''text/plain''] = ''text/plain''"
    by (simp add: sample_negotiate_def accept_text_def Get_def)
  have f: "sample_marshal sample_unencodable = Inl (Plain ''json: unsupported type: chan int'')"
    by (simp add: sample_marshal_def sample_unencodable_def)
  have z: "Get (ReqHeader no_accept) ''Accept'' = ''''"
    by (simp add: no_accept_def Get_def)
  have 1: "WriteError sample_negotiate sample_marshal [] accept_json StatusGone
             (BaseErrorPtr sample_error)
       = [SetHeader ''Content-Type'' ''application/json; charset=utf-8'',
          WriteHeader StatusGone, Write sample_body]"
    using WriteError_negotiation [of accept_json sample_negotiate sample_marshal
        "BaseErrorPtr sample_error" sample_body "[]" StatusGone] a n m
    by simp
  have 2: "WriteError sample_negotiate sample_marshal [] accept_text StatusGone
             (BaseErrorPtr sample_error)
       = [SetHeader ''Content-Type'' ''text/plain; charset=utf-8'',
          WriteHeader StatusGone, Write ''check the service name'']"
    using WriteError_negotiation [of accept_text sample_negotiate sample_marshal
        "BaseErrorPtr sample_error" _ "[]" StatusGone] a' n'
    by (simp add: sample_error_def)
  have 3: "WriteError sample_negotiate sample_marshal [] accept_json StatusNotFound
             sample_unencodable
       = [SetHeader ''Content-Type'' ''text/plain; charset=utf-8'',
          WriteHeader StatusInternalServerError,
          Write (''Error encoding error response: json: unsupported type: chan int''
                 @ [CHR 0x0A, CHR 0x0A] @ ''Original error: stream closed'')]"
    using WriteError_negotiation [of accept_json sample_negotiate sample_marshal
        sample_unencodable _ "[]" StatusNotFound "Plain ''json: unsupported type: chan int''"] a n f
    by (simp add: sample_unencodable_def)
  have 4: "WriteError sample_negotiate sample_marshal [] no_accept StatusNotFound (Plain ''boom'')
       = [SetHeader ''Content-Type'' ''text/plain; charset=utf-8'',
          WriteHeader StatusNotFound, Write ''boom'']"
    using WriteError_negotiation [of no_accept sample_negotiate sample_marshal
        "Plain ''boom''" _ "[]" StatusNotFound] z
    by simp
  from a n m 1 a' n' 2 f 3 z 4 show ?thesis by blast
qed

text \<open>
  The claim as stated fails where \<open>application/json\<close> is negotiated and the error cannot
  be encoded: the request then receives no JSON body, and the status written is 500,
  not the given code 404.
\<close>

theorem WriteError_negotiation_counterexample:
  "Get (ReqHeader accept_json) ''Accept'' = ''application/json''
   \<and> sample_negotiate accept_json [''application/json'', ''text/plain''] = ''application/json''
   \<and> WriteError sample_negotiate sample_marshal [] accept_json StatusNotFound sample_unencodable
       = [SetHeader ''Content-Type'' ''text/plain; charset=utf-8'',
          WriteHeader StatusInternalServerError,
          Write (''Error encoding error response: json: unsupported type: chan int''
                 @ [CHR 0x0A, CHR 0x0A] @ ''Original error: stream closed'')]"
  by (simp add: WriteError_def sample_negotiate_def sample_marshal_def sample_unencodable_def
      accept_json_def Get_def)

subsection \<open>ErrorResponse\<close>

lemma ErrorResponse_switch_code:
  "fst (ErrorResponse_switch CoverAllError e) =
     (case Cause e of
        Missing b \<Rightarrow> StatusNotFound
      | UserConfigProblem b \<Rightarrow> StatusUnprocessableEntity
      | _ \<Rightarrow> StatusInternalServerError)"
  by (simp add: ErrorResponse_switch_def split: err.split)

text \<open>
  C6. An error whose cause is none of \<open>Missing\<close>, \<open>UserConfigProblem\<close> and
  \<open>ServerException\<close> is written by \<open>ErrorResponse\<close> as the \<^verbatim>\<open>*flux.BaseError\<close> that
  \<open>CoverAllError\<close> makes of it, with status 500: the calls on the writer are those of
  \<open>WriteError\<close> for that value, they are the same calls as for a \<open>ServerException\<close> holding
  it, and the one status code written is 500.
\<close>

theorem ErrorResponse_cover_all:
  "(\<forall>b. Cause e \<noteq> Missing b) \<Longrightarrow> (\<forall>b. Cause e \<noteq> UserConfigProblem b) \<Longrightarrow>
   (\<forall>b. Cause e \<noteq> ServerException b) \<Longrightarrow>
   ErrorResponse negotiate jsonMarshal CoverAllError w r e =
     WriteError negotiate jsonMarshal w r StatusInternalServerError (BaseErrorPtr (CoverAllError e))
   \<and> ErrorResponse negotiate jsonMarshal CoverAllError w r e =
     ErrorResponse negotiate jsonMarshal CoverAllError w r (ServerException (CoverAllError e))
   \<and> (\<exists>contentType text.
        ErrorResponse negotiate jsonMarshal CoverAllError w r e =
          w @ [SetHeader ''Content-Type'' contentType, WriteHeader StatusInternalServerError,
               Write text])"
proof -
  assume "\<forall>b. Cause e \<noteq> Missing b" "\<forall>b. Cause e \<noteq> UserConfigProblem b"
    "\<forall>b. Cause e \<noteq> ServerException b"
  then have sw: "ErrorResponse_switch CoverAllError e =
      (StatusInternalServerError, CoverAllError e)"
    by (cases "Cause e") (simp_all add: ErrorResponse_switch_def)
  have 1: "ErrorResponse negotiate jsonMarshal CoverAllError w r e =
     WriteError negotiate jsonMarshal w r StatusInternalServerError (BaseErrorPtr (CoverAllError e))"
    by (simp add: ErrorResponse_def sw)
  have 2: "ErrorResponse negotiate jsonMarshal CoverAllError w r (ServerException (CoverAllError e)) =
     WriteError negotiate jsonMarshal w r StatusInternalServerError (BaseErrorPtr (CoverAllError e))"
    by (simp add: ErrorResponse_def ErrorResponse_switch_def)
  from WriteError_shape [of negotiate jsonMarshal w r StatusInternalServerError
      "BaseErrorPtr (CoverAllError e)"]
  have 3: "\<exists>contentType text.
        WriteError negotiate jsonMarshal w r StatusInternalServerError (BaseErrorPtr (CoverAllError e)) =
          w @ [SetHeader ''Content-Type'' contentType, WriteHeader StatusInternalServerError,
               Write text]"
    by auto
  from 1 2 3 show ?thesis by simp
qed

theorem ErrorResponse_cover_all_witness:
  "Cause (Wrapped ''listing services'' (Plain ''connection refused'')) = Plain ''connection refused''
   \<and> ErrorResponse sample_negotiate sample_marshal sample_cover_all [] no_accept
        (Wrapped ''listing services'' (Plain ''connection refused''))
       = [SetHeader ''Content-Type'' ''text/plain; charset=utf-8'',
          WriteHeader StatusInternalServerError,
          Write ''listing services: connection refused'']"
proof -
  let ?e = "Wrapped ''listing services'' (Plain ''connection refused'')"
  have c: "Cause ?e = Plain ''connection refused''" by simp
  have 1: "\<forall>b. Cause ?e \<noteq> Missing b" and 2: "\<forall>b. Cause ?e \<noteq> UserConfigProblem b"
    and 3: "\<forall>b. Cause ?e \<noteq> ServerException b"
    by simp_all
  from ErrorResponse_cover_all [OF 1 2 3, of sample_negotiate sample_marshal sample_cover_all
      "[]" no_accept]
  have "ErrorResponse sample_negotiate sample_marshal sample_cover_all [] no_accept ?e =
      WriteError sample_negotiate sample_marshal [] no_accept StatusInternalServerError
        (BaseErrorPtr (sample_cover_all ?e))"
    by blast
  then have "ErrorResponse sample_negotiate sample_marshal sample_cover_all [] no_accept ?e
       = [SetHeader ''Content-Type'' ''text/plain; charset=utf-8'',
          WriteHeader StatusInternalServerError,
          Write ''listing services: connection refused'']"
    by (simp add: WriteError_def no_accept_def Get_def sample_cover_all_def)
  with c show ?thesis by blast
qed

subsection \<open>JSONResponse\<close>

text \<open>
  C8. \<open>JSONResponse\<close> marshals the result and writes status 200 with the JSON body and
  content type; if marshalling fails it does what \<open>ErrorResponse\<close> does with the
  marshalling error, which always sets a content type, writes a status code and writes
  a body.
\<close>

theorem JSONResponse_writes:
  "(marshalResult result = Inr body \<longrightarrow>
      JSONResponse negotiate jsonMarshal CoverAllError marshalResult w r result =
        w @ [SetHeader ''Content-Type'' ''application/json; charset=utf-8'',
             WriteHeader StatusOK, Write body])
   \<and> (marshalResult result = Inl e \<longrightarrow>
      JSONResponse negotiate jsonMarshal CoverAllError marshalResult w r result =
        ErrorResponse negotiate jsonMarshal CoverAllError w r e
      \<and> (\<exists>contentType status text.
           JSONResponse negotiate jsonMarshal CoverAllError marshalResult w r result =
             w @ [SetHeader ''Content-Type'' contentType, WriteHeader status, Write text]))"
proof (intro conjI impI)
  assume "marshalResult result = Inr body"
  then show "JSONResponse negotiate jsonMarshal CoverAllError marshalResult w r result =
        w @ [SetHeader ''Content-Type'' ''application/json; charset=utf-8'',
             WriteHeader StatusOK, Write body]"
    by (simp add: JSONResponse_def)
next
  assume e: "marshalResult result = Inl e"
  then show eq: "JSONResponse negotiate jsonMarshal CoverAllError marshalResult w r result =
        ErrorResponse negotiate jsonMarshal CoverAllError w r e"
    by (simp add: JSONResponse_def)
  obtain code outErr where "ErrorResponse_switch CoverAllError e = (code, outErr)"
    by (cases "ErrorResponse_switch CoverAllError e")
  then have "ErrorResponse negotiate jsonMarshal CoverAllError w r e =
      WriteError negotiate jsonMarshal w r code (BaseErrorPtr outErr)"
    by (simp add: ErrorResponse_def)
  with eq WriteError_shape [of negotiate jsonMarshal w r code "BaseErrorPtr outErr"]
  show "\<exists>contentType status text.
           JSONResponse negotiate jsonMarshal CoverAllError marshalResult w r result =
             w @ [SetHeader ''Content-Type'' contentType, WriteHeader status, Write text]"
    by auto
qed

theorem JSONResponse_writes_witness:
  "(\<lambda>n::nat. if n = 0 then Inl (Plain ''json: unsupported value'') else Inr ''[1]'') 1 = Inr ''[1]''
   \<and> JSONResponse sample_negotiate sample_marshal sample_cover_all
        (\<lambda>n::nat. if n = 0 then Inl (Plain ''json: unsupported value'') else Inr ''[1]'')
        [] accept_json 1
       = [SetHeader ''Content-Type'' ''application/json; charset=utf-8'',
          WriteHeader StatusOK, Write ''[1]'']
   \<and> (\<lambda>n::nat. if n = 0 then Inl (Plain ''json: unsupported value'') else Inr ''[1]'') 0
       = Inl (Plain ''json: unsupported value'')
   \<and> JSONResponse sample_negotiate sample_marshal sample_cover_all
        (\<lambda>n::nat. if n = 0 then Inl (Plain ''json: unsupported value'') else Inr ''[1]'')
        [] accept_text 0
       = [SetHeader ''Content-Type'' ''text/plain; charset=utf-8'',
          WriteHeader StatusInternalServerError, Write ''Internal server error'']"
proof -
  let ?m = "\<lambda>n::nat. if n = 0 then Inl (Plain ''json: unsupported value'') else Inr ''[1]''"
  have ok: "?m 1 = Inr ''[1]''" by simp
  have bad: "?m 0 = Inl (Plain ''json: unsupported value'')" by simp
  have 1: "JSONResponse sample_negotiate sample_marshal sample_cover_all ?m [] accept_json 1
       = [SetHeader ''Content-Type'' ''application/json; charset=utf-8'',
          WriteHeader StatusOK, Write ''[1]'']"
    using JSONResponse_writes [of ?m 1 "''[1]''" sample_negotiate sample_marshal
        sample_cover_all "[]" accept_json] ok
    by simp
  have "JSONResponse sample_negotiate sample_marshal sample_cover_all ?m [] accept_text 0
       = ErrorResponse sample_negotiate sample_marshal sample_cover_all [] accept_text
           (Plain ''json: unsupported value'')"
    using JSONResponse_writes [of ?m 0 _ sample_negotiate sample_marshal
        sample_cover_all "[]" accept_text "Plain ''json: unsupported value''"] bad
    by simp
  then have 2: "JSONResponse sample_negotiate sample_marshal sample_cover_all ?m [] accept_text 0
       = [SetHeader ''Content-Type'' ''text/plain; charset=utf-8'',
          WriteHeader StatusInternalServerError, Write ''Internal server error'']"
    by (simp add: ErrorResponse_def ErrorResponse_switch_def WriteError_def accept_text_def
        Get_def sample_negotiate_def sample_cover_all_def)
  from ok 1 bad 2 show ?thesis by blast
qed

subsection \<open>The error round trip\<close>

lemma executeRequest_error_form:
  "executeRequest ErrorUnauthorized jsonDecode doResult = (resp, Some err) \<Longrightarrow>
   err = ErrorUnauthorized \<or> (\<exists>b. err = BaseErrorPtr b) \<or> (\<exists>s. err = Plain s)
     \<or> (\<exists>msg e. err = Wrapped msg e)"
  by (auto simp: executeRequest_def split: sum.splits if_splits)

lemma executeRequest_error_response:
  assumes "StatusCode resp = StatusNotFound \<or> StatusCode resp = StatusUnprocessableEntity
      \<or> StatusCode resp = StatusInternalServerError"
    and "Get (RespHeader resp) ''Content-Type'' = ''application/json; charset=utf-8''
      \<or> Get (RespHeader resp) ''Content-Type'' = ''text/plain; charset=utf-8''"
    and "Body resp = Inr text"
  shows "executeRequest ErrorUnauthorized jsonDecode (Inr resp) =
     (Some resp,
      Some (if Get (RespHeader resp) ''Content-Type'' = ''application/json; charset=utf-8''
            then (case jsonDecode text of
                    Inr decoded \<Rightarrow> BaseErrorPtr decoded
                  | Inl x \<Rightarrow> Wrapped ''decoding error in response body'' x)
            else Plain (Status resp @ '' '' @ text)))"
  using assms by (auto simp: executeRequest_def HasPrefix_def split: sum.splits)

text \<open>
  C1, as amended. On the way out, the status code that \<open>ErrorResponse\<close> hands to
  \<open>WriteError\<close> is 404 for a \<open>Missing\<close> error, 422 for a \<open>UserConfigProblem\<close> and 500 for a
  \<open>ServerException\<close> and for every other error, never 401 or 410; that code is the
  status written, for every request, except that 500 is written whatever the kind when
  \<open>application/json\<close> was negotiated and the error could not be encoded. On the way
  back, for a response \<open>resp\<close> that carries the written status code, content type and
  body, \<open>executeRequest\<close> returns that response, status code unchanged, together with
  an error: for a JSON response the decoded \<^verbatim>\<open>*flux.BaseError\<close> (the Go type that told
  the kind is not rebuilt) or, when the body does not decode, the wrapped decoding
  error; for a plain-text response an untyped error made of the status line and the
  body. The one status code the client maps to an error of its own is 401, to
  \<open>ErrorUnauthorized\<close>, whatever the body; no error it returns is of the types
  \<open>Missing\<close>, \<open>UserConfigProblem\<close> or \<open>ServerException\<close> (unless \<open>ErrorUnauthorized\<close> is).
\<close>

theorem error_round_trip:
  assumes "ErrorResponse_switch CoverAllError e = (code, outErr)"
  shows "code = (case Cause e of
                 Missing b \<Rightarrow> StatusNotFound
               | UserConfigProblem b \<Rightarrow> StatusUnprocessableEntity
               | _ \<Rightarrow> StatusInternalServerError)
    \<and> (\<exists>contentType text.
          ErrorResponse negotiate jsonMarshal CoverAllError w r e =
            w @ [SetHeader ''Content-Type'' contentType,
                 WriteHeader
                   (if Get (ReqHeader r) ''Accept'' \<noteq> ''''
                       \<and> negotiate r [''application/json'', ''text/plain''] = ''application/json''
                       \<and> (\<exists>x. jsonMarshal (BaseErrorPtr outErr) = Inl x)
                    then StatusInternalServerError else code),
                 Write text])
    \<and> (Get (ReqHeader r) ''Accept'' \<noteq> ''''
        \<and> negotiate r [''application/json'', ''text/plain''] = ''application/json''
        \<and> jsonMarshal (BaseErrorPtr outErr) = Inr body \<longrightarrow>
        ErrorResponse negotiate jsonMarshal CoverAllError w r e =
          w @ [SetHeader ''Content-Type'' ''application/json; charset=utf-8'',
               WriteHeader code, Write body])
    \<and> (ErrorResponse negotiate jsonMarshal CoverAllError w r e =
          w @ [SetHeader ''Content-Type'' contentType, WriteHeader status, Write written]
        \<and> StatusCode resp = status
        \<and> Get (RespHeader resp) ''Content-Type'' = contentType
        \<and> Body resp = Inr written \<longrightarrow>
        executeRequest ErrorUnauthorized jsonDecode (Inr resp) =
          (Some resp,
           Some (if contentType = ''application/json; charset=utf-8''
                 then (case jsonDecode written of
                         Inr decoded \<Rightarrow> BaseErrorPtr decoded
                       | Inl x \<Rightarrow> Wrapped ''decoding error in response body'' x)
                 else Plain (Status resp @ '' '' @ written))))
    \<and> (\<forall>resp'. StatusCode resp' = StatusUnauthorized \<longrightarrow>
          executeRequest ErrorUnauthorized jsonDecode (Inr resp')
            = (Some resp', Some ErrorUnauthorized))
    \<and> (\<forall>doResult got err. executeRequest ErrorUnauthorized jsonDecode doResult = (got, Some err)
          \<longrightarrow> err = ErrorUnauthorized \<or> (\<exists>b. err = BaseErrorPtr b) \<or> (\<exists>s. err = Plain s)
              \<or> (\<exists>msg e'. err = Wrapped msg e'))"
proof (intro conjI allI impI)
  have E: "ErrorResponse negotiate jsonMarshal CoverAllError w r e =
      WriteError negotiate jsonMarshal w r code (BaseErrorPtr outErr)"
    using assms by (simp add: ErrorResponse_def)
  show c: "code = (case Cause e of
                 Missing b \<Rightarrow> StatusNotFound
               | UserConfigProblem b \<Rightarrow> StatusUnprocessableEntity
               | _ \<Rightarrow> StatusInternalServerError)"
    using assms ErrorResponse_switch_code [of CoverAllError e] by simp
  have codes: "code = StatusNotFound \<or> code = StatusUnprocessableEntity
      \<or> code = StatusInternalServerError"
    unfolding c by (simp split: err.split)
  show "\<exists>contentType text.
          ErrorResponse negotiate jsonMarshal CoverAllError w r e =
            w @ [SetHeader ''Content-Type'' contentType,
                 WriteHeader
                   (if Get (ReqHeader r) ''Accept'' \<noteq> ''''
                       \<and> negotiate r [''application/json'', ''text/plain''] = ''application/json''
                       \<and> (\<exists>x. jsonMarshal (BaseErrorPtr outErr) = Inl x)
                    then StatusInternalServerError else code),
                 Write text]"
    unfolding E using WriteError_status [of negotiate jsonMarshal w r code "BaseErrorPtr outErr"]
    by blast
  {
    assume "Get (ReqHeader r) ''Accept'' \<noteq> ''''
        \<and> negotiate r [''application/json'', ''text/plain''] = ''application/json''
        \<and> jsonMarshal (BaseErrorPtr outErr) = Inr body"
    then show "ErrorResponse negotiate jsonMarshal CoverAllError w r e =
          w @ [SetHeader ''Content-Type'' ''application/json; charset=utf-8'',
               WriteHeader code, Write body]"
      unfolding E by (simp add: WriteError_def)
  }
  {
    assume a: "ErrorResponse negotiate jsonMarshal CoverAllError w r e =
          w @ [SetHeader ''Content-Type'' contentType, WriteHeader status, Write written]
        \<and> StatusCode resp = status
        \<and> Get (RespHeader resp) ''Content-Type'' = contentType
        \<and> Body resp = Inr written"
    from WriteError_shape [of negotiate jsonMarshal w r code "BaseErrorPtr outErr"] a
    have ct: "contentType = ''application/json; charset=utf-8''
          \<or> contentType = ''text/plain; charset=utf-8''"
      and st: "status = code \<or> status = StatusInternalServerError"
      unfolding E by auto
    from st codes a have s: "StatusCode resp = StatusNotFound
        \<or> StatusCode resp = StatusUnprocessableEntity
        \<or> StatusCode resp = StatusInternalServerError"
      by auto
    from ct a have h: "Get (RespHeader resp) ''Content-Type'' = ''application/json; charset=utf-8''
        \<or> Get (RespHeader resp) ''Content-Type'' = ''text/plain; charset=utf-8''"
      by simp
    from a have b: "Body resp = Inr written" by simp
    from a executeRequest_error_response [OF s h b, of ErrorUnauthorized jsonDecode]
    show "executeRequest ErrorUnauthorized jsonDecode (Inr resp) =
          (Some resp,
           Some (if contentType = ''application/json; charset=utf-8''
                 then (case jsonDecode written of
                         Inr decoded \<Rightarrow> BaseErrorPtr decoded
                       | Inl x \<Rightarrow> Wrapped ''decoding error in response body'' x)
                 else Plain (Status resp @ '' '' @ written)))"
      by simp
  }
  {
    fix resp' :: response
    assume "StatusCode resp' = StatusUnauthorized"
    then show "executeRequest ErrorUnauthorized jsonDecode (Inr resp')
              = (Some resp', Some ErrorUnauthorized)"
      by (simp add: executeRequest_def)
  }
  {
    fix doResult got err
    assume "executeRequest ErrorUnauthorized jsonDecode doResult = (got, Some err)"
    then show "err = ErrorUnauthorized \<or> (\<exists>b. err = BaseErrorPtr b) \<or> (\<exists>s. err = Plain s)
                \<or> (\<exists>msg e'. err = Wrapped msg e')"
      by (rule executeRequest_error_form)
  }
qed

theorem error_round_trip_witness:
  "ErrorResponse_switch sample_cover_all (Wrapped ''listing'' (UserConfigProblem sample_error))
       = (StatusUnprocessableEntity, sample_error)
   \<and> Get (ReqHeader accept_json) ''Accept'' \<noteq> ''''
   \<and> sample_negotiate accept_json [''application/json'', ''text/plain''] = ''application/json''
   \<and> sample_marshal (BaseErrorPtr sample_error) = Inr sample_body
   \<and> ErrorResponse sample_negotiate sample_marshal sample_cover_all [] accept_json
        (Wrapped ''listing'' (UserConfigProblem sample_error))
       = [SetHeader ''Content-Type'' ''application/json; charset=utf-8'',
          WriteHeader StatusUnprocessableEntity, Write sample_body]
   \<and> executeRequest sample_unauthorized sample_decode
        (Inr \<lparr>StatusCode = StatusUnprocessableEntity, Status = ''422 Unprocessable Entity'',
              RespHeader = [''Content-Type'' \<mapsto> ''application/json; charset=utf-8''],
              Body = Inr sample_body\<rparr>)
       = (Some \<lparr>StatusCode = StatusUnprocessableEntity, Status = ''422 Unprocessable Entity'',
               RespHeader = [''Content-Type'' \<mapsto> ''application/json; charset=utf-8''],
               Body = Inr sample_body\<rparr>,
          Some (BaseErrorPtr sample_error))"
proof -
  let ?e = "Wrapped ''listing'' (UserConfigProblem sample_error)"
  let ?resp = "\<lparr>StatusCode = StatusUnprocessableEntity, Status = ''422 Unprocessable Entity'',
              RespHeader = [''Content-Type'' \<mapsto> ''application/json; charset=utf-8''],
              Body = Inr sample_body\<rparr>"
  have h1: "Get (ReqHeader accept_json) ''Accept'' \<noteq> ''''"
    by (simp add: accept_json_def Get_def)
  have h2: "sample_negotiate accept_json [''application/json'', ''text/plain''] = ''application/json''"
    by (simp add: sample_negotiate_def accept_json_def Get_def)
  have h3: "ErrorResponse_switch sample_cover_all ?e = (StatusUnprocessableEntity, sample_error)"
    by (simp add: ErrorResponse_switch_def)
  have h4: "sample_marshal (BaseErrorPtr sample_error) = Inr sample_body"
    by (simp add: sample_marshal_def)
  have h5: "sample_decode sample_body = Inr sample_error"
    by (simp add: sample_decode_def)
  have h6: "StatusCode ?resp = StatusUnprocessableEntity" by simp
  have h7: "Get (RespHeader ?resp) ''Content-Type'' = ''application/json; charset=utf-8''"
    by (simp add: Get_def)
  have h8: "Body ?resp = Inr sample_body" by simp
  note main = error_round_trip [where CoverAllError = sample_cover_all and e = ?e
      and code = StatusUnprocessableEntity and outErr = sample_error
      and r = accept_json and negotiate = sample_negotiate
      and jsonMarshal = sample_marshal and body = sample_body and w = "[]"
      and contentType = "''application/json; charset=utf-8''"
      and status = StatusUnprocessableEntity and written = sample_body
      and jsonDecode = sample_decode and resp = ?resp
      and ErrorUnauthorized = sample_unauthorized, OF h3]
  from main h1 h2 h4
  have w: "ErrorResponse sample_negotiate sample_marshal sample_cover_all [] accept_json ?e
       = [SetHeader ''Content-Type'' ''application/json; charset=utf-8'',
          WriteHeader StatusUnprocessableEntity, Write sample_body]"
    by simp
  from main w h6 h7 h8
  have "executeRequest sample_unauthorized sample_decode (Inr ?resp)
       = (Some ?resp,
          Some (case sample_decode sample_body of
                  Inr decoded \<Rightarrow> BaseErrorPtr decoded
                | Inl x \<Rightarrow> Wrapped ''decoding error in response body'' x))"
    by simp
  with h5 have x: "executeRequest sample_unauthorized sample_decode (Inr ?resp)
       = (Some ?resp, Some (BaseErrorPtr sample_error))"
    by simp
  from h3 h1 h2 h4 w x show ?thesis by blast
qed

text \<open>
  The claim as stated fails in the decode direction. A \<open>Missing\<close> error goes out with
  status 404 and the JSON body of its \<^verbatim>\<open>BaseError\<close>; the client answers with a bare
  \<^verbatim>\<open>*flux.BaseError\<close>, which is not a \<open>Missing\<close>. A response with status 410 and the same
  body gives the very same error value, so the error the client returns does not tell
  \<open>Missing\<close> from \<open>Deprecated\<close>.
\<close>

theorem error_round_trip_counterexample:
  "ErrorResponse sample_negotiate sample_marshal sample_cover_all [] accept_json
       (Missing sample_error)
     = [SetHeader ''Content-Type'' ''application/json; charset=utf-8'',
        WriteHeader StatusNotFound, Write sample_body]
   \<and> snd (executeRequest sample_unauthorized sample_decode
        (Inr \<lparr>StatusCode = StatusNotFound, Status = ''404 Not Found'',
              RespHeader = [''Content-Type'' \<mapsto> ''application/json; charset=utf-8''],
              Body = Inr sample_body\<rparr>))
     = Some (BaseErrorPtr sample_error)
   \<and> BaseErrorPtr sample_error \<noteq> Missing sample_error
   \<and> snd (executeRequest sample_unauthorized sample_decode
        (Inr \<lparr>StatusCode = StatusGone, Status = ''410 Gone'',
              RespHeader = [''Content-Type'' \<mapsto> ''application/json; charset=utf-8''],
              Body = Inr sample_body\<rparr>))
     = Some (BaseErrorPtr sample_error)"
  by (simp add: ErrorResponse_def ErrorResponse_switch_def WriteError_def executeRequest_def
      accept_json_def Get_def HasPrefix_def sample_negotiate_def sample_marshal_def
      sample_decode_def)

subsection \<open>doRegister\<close>

text \<open>
  C9. When the websocket upgrade fails, \<open>doRegister\<close> writes status 400 and the error
  text (as \<^verbatim>\<open>Fprintf\<close> renders it: unchanged when it holds no \<^verbatim>\<open>%\<close>) and does nothing
  else: no RPC client is made and no daemon is registered. An RPC client is made, or a
  daemon registered, only when the upgrade succeeded; then the client is made of the
  upgraded connection, registered under the instance of the request, and closed.
\<close>

theorem doRegister_upgrade:
  "(upgrade = Inl e \<longrightarrow>
      doRegister key fmtVerbs upgrade newRPCFn r =
        [Respond (WriteHeader StatusBadRequest), Respond (Write (Fprintf0 fmtVerbs (ErrorText e)))]
      \<and> (CHR ''%'' \<notin> set (ErrorText e) \<longrightarrow>
           doRegister key fmtVerbs upgrade newRPCFn r =
             [Respond (WriteHeader StatusBadRequest), Respond (Write (ErrorText e))])
      \<and> (\<forall>a \<in> set (doRegister key fmtVerbs upgrade newRPCFn r). \<exists>ev. a = Respond ev))
   \<and> ((\<exists>a \<in> set (doRegister key fmtVerbs upgrade newRPCFn r).
          (\<exists>ws. a = NewRPC ws) \<or> (\<exists>inst p. a = RegisterDaemon inst p)) \<longrightarrow>
       (\<exists>ws. upgrade = Inr ws))
   \<and> (upgrade = Inr ws \<longrightarrow>
      doRegister key fmtVerbs upgrade newRPCFn r =
        [NewRPC ws, RegisterDaemon (getInstanceID key r) (newRPCFn ws),
         ClosePlatform (newRPCFn ws)])"
  by (cases upgrade) (auto simp: doRegister_def Fprintf0_def Let_def)

theorem doRegister_upgrade_witness:
  "doRegister ''X-Instance'' id (Inl (Plain ''websocket: not a websocket handshake''))
       (\<lambda>ws::nat. ws) \<lparr>ReqHeader = [''X-Instance'' \<mapsto> ''tenant-1'']\<rparr>
     = [Respond (WriteHeader StatusBadRequest),
        Respond (Write ''websocket: not a websocket handshake'')]
   \<and> doRegister ''X-Instance'' id (Inr (7::nat))
       (\<lambda>ws::nat. ws) \<lparr>ReqHeader = [''X-Instance'' \<mapsto> ''tenant-1'']\<rparr>
     = [NewRPC 7, RegisterDaemon ''tenant-1'' 7, ClosePlatform 7]"
proof -
  let ?r = "\<lparr>ReqHeader = [''X-Instance'' \<mapsto> ''tenant-1'']\<rparr>"
  let ?e = "Plain ''websocket: not a websocket handshake''"
  from doRegister_upgrade [of "Inl ?e" ?e "''X-Instance''" id "\<lambda>ws::nat. ws" ?r]
  have "CHR ''%'' \<notin> set (ErrorText ?e) \<longrightarrow>
      doRegister ''X-Instance'' id (Inl ?e) (\<lambda>ws::nat. ws) ?r
        = [Respond (WriteHeader StatusBadRequest), Respond (Write (ErrorText ?e))]"
    by blast
  then have 1: "doRegister ''X-Instance'' id (Inl ?e) (\<lambda>ws::nat. ws) ?r
     = [Respond (WriteHeader StatusBadRequest),
        Respond (Write ''websocket: not a websocket handshake'')]"
    by simp
  from doRegister_upgrade [of "Inr (7::nat)" _ "''X-Instance''" id "\<lambda>ws::nat. ws" ?r 7]
  have "doRegister ''X-Instance'' id (Inr (7::nat)) (\<lambda>ws::nat. ws) ?r
     = [NewRPC 7, RegisterDaemon (getInstanceID ''X-Instance'' ?r) 7, ClosePlatform 7]"
    by blast
  then have 2: "doRegister ''X-Instance'' id (Inr (7::nat)) (\<lambda>ws::nat. ws) ?r
     = [NewRPC 7, RegisterDaemon ''tenant-1'' 7, ClosePlatform 7]"
    by (simp add: getInstanceID_def Get_def)
  from 1 2 show ?thesis by blast
qed

subsection \<open>MakeURL\<close>

lemma values_of_pairs_Cons:
  "values_of_pairs ((k, x) # ps) = (\<lambda>key. (if k = key then [x] else []) @ values_of_pairs ps key)"
  by (auto simp: values_of_pairs_def fun_eq_iff)

lemma MakeURL_params_pairs:
  "even (length urlParams) \<Longrightarrow> even i \<Longrightarrow>
   MakeURL_params urlParams i v =
     Inr (\<lambda>key. v key @ values_of_pairs (pairs (drop i urlParams)) key)"
proof (induction urlParams i v rule: MakeURL_params.induct)
  case (1 urlParams i v)
  show ?case
  proof (cases "i < length urlParams")
    case False
    then show ?thesis
      by (subst MakeURL_params.simps) (simp add: values_of_pairs_def)
  next
    case True
    with "1.prems" have next_ok: "i + 1 < length urlParams"
      by (metis One_nat_def Suc_lessI add.right_neutral add_Suc_right even_Suc)
    then have d: "drop i urlParams = urlParams ! i # urlParams ! (i + 1) # drop (i + 2) urlParams"
      using True by (simp add: Cons_nth_drop_Suc)
    have "MakeURL_params urlParams (i + 2) (Add v (urlParams ! i) (urlParams ! (i + 1))) =
        Inr (\<lambda>key. Add v (urlParams ! i) (urlParams ! (i + 1)) key
                     @ values_of_pairs (pairs (drop (i + 2) urlParams)) key)"
      using "1.IH" [OF True next_ok] "1.prems" by simp
    then show ?thesis
      using True next_ok
      by (subst MakeURL_params.simps) (auto simp: d values_of_pairs_Cons Add_def fun_eq_iff)
  qed
qed

text \<open>
  C10. \<open>MakeURL\<close> panics with "urlParams must be even!" whenever the number of
  \<open>urlParams\<close> is odd. When it is even, that panic does not happen and the loop reads no
  index out of range; if then the endpoint parses and the router has a URL for the
  route name, the result is the endpoint URL with its path joined with the route's path
  and with the encoded query values, in which every key holds, in order, the values
  that follow it in \<open>urlParams\<close> taken two by two.
\<close>

theorem MakeURL_pairs_params:
  "(odd (length urlParams) \<longrightarrow>
      MakeURL urlParse router pathJoin encode endpoint routeName urlParams
        = Inl UrlParamsMustBeEven)
   \<and> (even (length urlParams) \<longrightarrow>
      MakeURL urlParse router pathJoin encode endpoint routeName urlParams
        \<noteq> Inl UrlParamsMustBeEven
      \<and> MakeURL urlParse router pathJoin encode endpoint routeName urlParams
        \<noteq> Inl IndexOutOfRange
      \<and> (urlParse endpoint = Inr endpointURL \<and> router routeName = Some (Inr routeURL) \<longrightarrow>
          MakeURL urlParse router pathJoin encode endpoint routeName urlParams
            = Inr (Inr (endpointURL
                \<lparr>URLPath := pathJoin (URLPath endpointURL) (URLPath routeURL),
                 RawQuery := encode (values_of_pairs (pairs urlParams))\<rparr>))))"
proof (intro conjI impI)
  assume "odd (length urlParams)"
  then show "MakeURL urlParse router pathJoin encode endpoint routeName urlParams
        = Inl UrlParamsMustBeEven"
    by (simp add: MakeURL_def odd_iff_mod_2_eq_one)
next
  assume ev: "even (length urlParams)"
  then have loop: "MakeURL_params urlParams 0 (\<lambda>key. []) = Inr (values_of_pairs (pairs urlParams))"
    using MakeURL_params_pairs [of urlParams 0 "\<lambda>key. []"] by simp
  from ev have m: "length urlParams mod 2 = 0" by presburger
  show "MakeURL urlParse router pathJoin encode endpoint routeName urlParams
        \<noteq> Inl UrlParamsMustBeEven"
    by (simp add: MakeURL_def m loop split: sum.split option.split)
  show "MakeURL urlParse router pathJoin encode endpoint routeName urlParams
        \<noteq> Inl IndexOutOfRange"
    by (simp add: MakeURL_def m loop split: sum.split option.split)
  assume "urlParse endpoint = Inr endpointURL \<and> router routeName = Some (Inr routeURL)"
  then show "MakeURL urlParse router pathJoin encode endpoint routeName urlParams
            = Inr (Inr (endpointURL
                \<lparr>URLPath := pathJoin (URLPath endpointURL) (URLPath routeURL),
                 RawQuery := encode (values_of_pairs (pairs urlParams))\<rparr>))"
    by (simp add: MakeURL_def m loop)
qed

theorem MakeURL_pairs_params_witness:
  "odd (length [''namespace''])
   \<and> MakeURL (\<lambda>s. Inr \<lparr>Scheme = ''http'', Host = ''flux'', URLPath = ''/api'', RawQuery = ''''\<rparr>)
        [''ListServices'' \<mapsto> Inr \<lparr>Scheme = '''', Host = '''', URLPath = ''/v3/services'', RawQuery = ''''\<rparr>]
        (\<lambda>a b. a @ b) (\<lambda>v. ''namespace='' @ concat (v ''namespace''))
        ''http://flux/api'' ''ListServices'' [''namespace'']
       = Inl UrlParamsMustBeEven
   \<and> even (length [''namespace'', ''default''])
   \<and> MakeURL (\<lambda>s. Inr \<lparr>Scheme = ''http'', Host = ''flux'', URLPath = ''/api'', RawQuery = ''''\<rparr>)
        [''ListServices'' \<mapsto> Inr \<lparr>Scheme = '''', Host = '''', URLPath = ''/v3/services'', RawQuery = ''''\<rparr>]
        (\<lambda>a b. a @ b) (\<lambda>v. ''namespace='' @ concat (v ''namespace''))
        ''http://flux/api'' ''ListServices'' [''namespace'', ''default'']
       = Inr (Inr \<lparr>Scheme = ''http'', Host = ''flux'', URLPath = ''/api/v3/services'',
                   RawQuery = ''namespace=default''\<rparr>)"
proof -
  let ?parse = "\<lambda>s::string. Inr \<lparr>Scheme = ''http'', Host = ''flux'', URLPath = ''/api'', RawQuery = ''''\<rparr>
      :: err + url"
  let ?router = "[''ListServices'' \<mapsto>
      (Inr \<lparr>Scheme = '''', Host = '''', URLPath = ''/v3/services'', RawQuery = ''''\<rparr> :: err + url)]"
  let ?join = "\<lambda>a b::string. a @ b"
  let ?encode = "\<lambda>v::url_values. ''namespace='' @ concat (v ''namespace'')"
  have o: "odd (length [''namespace''])" by simp
  have e: "even (length [''namespace'', ''default''])" by simp
  have 1: "MakeURL ?parse ?router ?join ?encode ''http://flux/api'' ''ListServices'' [''namespace'']
       = Inl UrlParamsMustBeEven"
    using MakeURL_pairs_params [of "[''namespace'']" ?parse ?router ?join ?encode
        "''http://flux/api''" "''ListServices''"] o
    by blast
  have 2: "MakeURL ?parse ?router ?join ?encode ''http://flux/api'' ''ListServices''
        [''namespace'', ''default'']
       = Inr (Inr \<lparr>Scheme = ''http'', Host = ''flux'', URLPath = ''/api/v3/services'',
                   RawQuery = ''namespace=default''\<rparr>)"
    using MakeURL_pairs_params [of "[''namespace'', ''default'']" ?parse ?router ?join ?encode
        "''http://flux/api''" "''ListServices''"
        "\<lparr>Scheme = ''http'', Host = ''flux'', URLPath = ''/api'', RawQuery = ''''\<rparr>"
        "\<lparr>Scheme = '''', Host = '''', URLPath = ''/v3/services'', RawQuery = ''''\<rparr>"] e
    by (simp add: values_of_pairs_def)
  from o 1 e 2 show ?thesis by blast
qed

end
